theory Spec2Isabelle
  imports Main "HOL-Library.Word" "HOL-Library.Sublist"
begin

section \<open>Bytes, strings and integers of the Go program\<close>

text \<open>
  A Go \<^verbatim>\<open>string\<close> and a \<^verbatim>\<open>[]byte\<close> are sequences of arbitrary bytes: both are
  \<^typ>\<open>string\<close> here, a list of 8-bit characters. \<open>byte c\<close> reads a character as the number
  Go compares it with. Go's \<^verbatim>\<open>int\<close> is taken at 64 bits (\<^typ>\<open>64 word\<close>, read by \<open>sint\<close>).
\<close>

type_synonym bytes = string

abbreviation byte :: "char \<Rightarrow> nat" where
  "byte c \<equiv> of_char c"

subsection \<open>strconv\<close>

text \<open>The digit table \<^verbatim>\<open>digits\<close> of strconv, as far as base 10 reads it.\<close>

definition digit :: "nat \<Rightarrow> char" where
  "digit d = ''0123456789'' ! d"

text \<open>The decimal digits of a magnitude, most significant first (\<^verbatim>\<open>strconv.formatBits\<close>, base 10).\<close>

fun formatBits :: "nat \<Rightarrow> string" where
  "formatBits n = (if n < 10 then [digit n] else formatBits (n div 10) @ [digit (n mod 10)])"

declare formatBits.simps [simp del]

text \<open>\<^verbatim>\<open>strconv.AppendInt(dst, i, 10)\<close>, also what \<^verbatim>\<open>%d\<close> prints for an \<^verbatim>\<open>int\<close>.\<close>

definition FormatInt :: "int \<Rightarrow> string" where
  "FormatInt i = (if i < 0 then CHR ''-'' # formatBits (nat (- i)) else formatBits (nat i))"

text \<open>
  \<^verbatim>\<open>strconv.ParseUint(s, 10, 64)\<close>. The loop accumulates the value digit by digit and
  fails on the empty string and on any byte that is not a decimal digit (a letter is a digit
  of value at least 10, which base 10 refuses). Go detects a value beyond 64 bits while it
  accumulates and reports a range error; here the value is accumulated without bound and
  \<open>ParseInt\<close> checks the range afterwards, which refuses the same inputs.
\<close>

fun parseDigits :: "nat \<Rightarrow> string \<Rightarrow> nat option" where
  "parseDigits acc [] = Some acc"
| "parseDigits acc (c # cs) =
     (if 48 \<le> byte c \<and> byte c \<le> 57 then parseDigits (acc * 10 + (byte c - 48)) cs
      else None)"

definition ParseUint :: "string \<Rightarrow> nat option" where
  "ParseUint s = (if s = [] then None else parseDigits 0 s)"

text \<open>
  \<^verbatim>\<open>strconv.ParseInt(s, 10, 64)\<close>: an optional sign, then the magnitude, which must be below
  the cutoff \<open>2^63\<close> (at most the cutoff for a negative number). \<open>None\<close> is any error.
\<close>

definition ParseInt :: "string \<Rightarrow> 64 word option" where
  "ParseInt s0 =
     (if s0 = [] then None
      else let neg = (hd s0 = CHR ''-'');
               s = (if hd s0 = CHR ''+'' \<or> hd s0 = CHR ''-'' then tl s0 else s0)
           in case ParseUint s of
                None \<Rightarrow> None
              | Some un \<Rightarrow>
                  if \<not> neg \<and> un \<ge> 2 ^ 63 then None
                  else if neg \<and> un > 2 ^ 63 then None
                  else Some (if neg then - (of_nat un) else of_nat un))"

subsection \<open>unicode/utf8 and unicode/utf16\<close>

definition RuneError :: nat where
  "RuneError = 0xFFFD"

text \<open>
  The table \<^verbatim>\<open>first\<close> of package utf8, for a leading byte of at least \<open>0x80\<close>: the length
  of the sequence and the range accepted for its second byte; \<open>None\<close> is an invalid leading
  byte (a continuation byte, \<open>0xC0\<close>, \<open>0xC1\<close>, \<open>0xF5\<close> and above).
\<close>

definition first :: "nat \<Rightarrow> (nat \<times> nat \<times> nat) option" where
  "first p0 =
     (if 0xC2 \<le> p0 \<and> p0 \<le> 0xDF then Some (2, 0x80, 0xBF)
      else if p0 = 0xE0 then Some (3, 0xA0, 0xBF)
      else if 0xE1 \<le> p0 \<and> p0 \<le> 0xEC then Some (3, 0x80, 0xBF)
      else if p0 = 0xED then Some (3, 0x80, 0x9F)
      else if 0xEE \<le> p0 \<and> p0 \<le> 0xEF then Some (3, 0x80, 0xBF)
      else if p0 = 0xF0 then Some (4, 0x90, 0xBF)
      else if 0xF1 \<le> p0 \<and> p0 \<le> 0xF3 then Some (4, 0x80, 0xBF)
      else if p0 = 0xF4 then Some (4, 0x80, 0x8F)
      else None)"

text \<open>
  \<^verbatim>\<open>utf8.DecodeRune\<close>: the first rune of \<open>p\<close> and its width in bytes; \<open>(RuneError, 1)\<close> for
  an encoding that is invalid or cut short, \<open>(RuneError, 0)\<close> for no bytes. Go's masks and
  shifts (\<^verbatim>\<open>p0&mask2<<6 | b1&maskx\<close>) are written with \<open>mod\<close> and multiplication.
\<close>

definition DecodeRune :: "bytes \<Rightarrow> nat \<times> nat" where
  "DecodeRune p =
     (case p of
        [] \<Rightarrow> (RuneError, 0)
      | p0 # _ \<Rightarrow>
          if byte p0 < 0x80 then (byte p0, 1)
          else (case first (byte p0) of
            None \<Rightarrow> (RuneError, 1)
          | Some (sz, lo, hi) \<Rightarrow>
              if length p < sz then (RuneError, 1)
              else let b1 = byte (p ! 1) in
                if b1 < lo \<or> hi < b1 then (RuneError, 1)
                else if sz \<le> 2 then ((byte p0 mod 32) * 64 + b1 mod 64, 2)
                else let b2 = byte (p ! 2) in
                  if b2 < 0x80 \<or> 0xBF < b2 then (RuneError, 1)
                  else if sz \<le> 3
                    then ((byte p0 mod 16) * 4096 + (b1 mod 64) * 64 + b2 mod 64, 3)
                  else let b3 = byte (p ! 3) in
                    if b3 < 0x80 \<or> 0xBF < b3 then (RuneError, 1)
                    else ((byte p0 mod 8) * 262144 + (b1 mod 64) * 4096
                            + (b2 mod 64) * 64 + b3 mod 64, 4)))"

text \<open>
  \<^verbatim>\<open>utf8.AppendRune\<close> / \<^verbatim>\<open>utf8.EncodeRune\<close>: a surrogate or a value beyond \<open>0x10FFFF\<close> is
  written as \<open>RuneError\<close>.
\<close>

definition enc3 :: "nat \<Rightarrow> bytes" where
  "enc3 r = [char_of (0xE0 + r div 4096), char_of (0x80 + (r div 64) mod 64),
             char_of (0x80 + r mod 64)]"

definition EncodeRune :: "nat \<Rightarrow> bytes" where
  "EncodeRune r =
     (if r \<le> 0x7F then [char_of r]
      else if r \<le> 0x7FF then [char_of (0xC0 + r div 64), char_of (0x80 + r mod 64)]
      else if r > 0x10FFFF \<or> (0xD800 \<le> r \<and> r \<le> 0xDFFF) then enc3 RuneError
      else if r \<le> 0xFFFF then enc3 r
      else [char_of (0xF0 + r div 262144), char_of (0x80 + (r div 4096) mod 64),
            char_of (0x80 + (r div 64) mod 64), char_of (0x80 + r mod 64)])"

lemma first_size: "first b = Some (sz, lo, hi) \<Longrightarrow> sz = 2 \<or> sz = 3 \<or> sz = 4"
  by (auto simp: first_def split: if_splits)

lemma DecodeRune_size: "p \<noteq> [] \<Longrightarrow> 1 \<le> snd (DecodeRune p) \<and> snd (DecodeRune p) \<le> 4"
  by (cases p) (auto simp: DecodeRune_def Let_def split: option.splits dest: first_size)

lemma DecodeRune_drop: "p \<noteq> [] \<Longrightarrow> length (drop (snd (DecodeRune p)) p) < length p"
  using DecodeRune_size [of p] by simp

text \<open>\<^verbatim>\<open>utf8.Valid\<close>: no position decodes to \<open>(RuneError, 1)\<close>.\<close>

function Valid :: "bytes \<Rightarrow> bool" where
  "Valid p =
     (if p = [] then True
      else if DecodeRune p = (RuneError, 1) then False
      else Valid (drop (snd (DecodeRune p)) p))"
  by pat_completeness auto
termination
proof (relation "measure length")
  show "wf (measure length)" by simp
next
  fix p :: bytes
  assume "p \<noteq> []"
  then show "(drop (snd (DecodeRune p)) p, p) \<in> measure length"
    using DecodeRune_drop [of p] by simp
qed

declare Valid.simps [simp del]

text \<open>\<^verbatim>\<open>utf16.IsSurrogate\<close> and \<^verbatim>\<open>utf16.DecodeRune\<close>.\<close>

definition IsSurrogate :: "nat \<Rightarrow> bool" where
  "IsSurrogate r = (0xD800 \<le> r \<and> r < 0xE000)"

definition utf16_DecodeRune :: "nat \<Rightarrow> nat \<Rightarrow> nat" where
  "utf16_DecodeRune r1 r2 =
     (if 0xD800 \<le> r1 \<and> r1 < 0xDC00 \<and> 0xDC00 \<le> r2 \<and> r2 < 0xE000
      then (r1 - 0xD800) * 1024 + (r2 - 0xDC00) + 0x10000
      else 0xFFFD)"


section \<open>Errors\<close>

text \<open>
  A Go \<^verbatim>\<open>error\<close> value. The errors of the libraries are constructors of their own:
  \<open>SyntaxError\<close> and \<open>UnmarshalTypeError\<close> (its \<^verbatim>\<open>Value\<close> and \<^verbatim>\<open>Field\<close>) of
  encoding/json, \<open>EOF\<close> and \<open>ErrUnexpectedEOF\<close> of io, \<open>url_Error\<close> (\<^verbatim>\<open>Op\<close>, \<^verbatim>\<open>URL\<close>,
  \<^verbatim>\<open>Err\<close>) of net/url, \<open>invalidMethod\<close> of net/http. \<open>errorString\<close> is an error that is only
  a message (\<^verbatim>\<open>errors.New\<close>, \<^verbatim>\<open>fmt.Errorf\<close> without \<^verbatim>\<open>%w\<close>, and whatever a transport
  reports). \<open>wrapError msg e\<close> is \<^verbatim>\<open>fmt.Errorf(msg + "%w", e)\<close>.
\<close>

datatype error =
    SyntaxError
  | UnmarshalTypeError string string
  | EOF
  | ErrUnexpectedEOF
  | url_Error string string error
  | invalidMethod string
  | errorString string
  | wrapError string error

text \<open>
  \<^verbatim>\<open>err.Error()\<close>. The program formats two kinds of error itself; the texts of the library
  errors are the parameter \<open>lib\<close>.
\<close>

fun Error :: "(error \<Rightarrow> string) \<Rightarrow> error \<Rightarrow> string" where
  "Error lib (errorString m) = m"
| "Error lib (wrapError msg e) = msg @ Error lib e"
| "Error lib e = lib e"

section \<open>The Product type\<close>

record Product =
  Title :: string
  Description :: string
  Price :: "64 word"
  Brand :: string
  Category :: string

text \<open>\<^verbatim>\<open>Product{}\<close>, the zero value.\<close>

definition Product_zero :: Product where
  "Product_zero = \<lparr>Title = [], Description = [], Price = 0, Brand = [], Category = []\<rparr>"

section \<open>encoding/json: Marshal\<close>

definition backslash :: char where
  "backslash = CHR 0x5C"

definition hex :: string where
  "hex = ''0123456789abcdef''"

text \<open>
  \<^verbatim>\<open>htmlSafeSet\<close>: the ASCII bytes \<^verbatim>\<open>json.Marshal\<close> copies as they are. Control bytes, the
  double quote, the backslash and the three HTML bytes \<^verbatim>\<open>&\<close>, \<^verbatim>\<open><\<close>, \<^verbatim>\<open>>\<close> are escaped.
\<close>

definition htmlSafeSet :: "char \<Rightarrow> bool" where
  "htmlSafeSet b = (0x20 \<le> byte b \<and> byte b < 0x80 \<and> b \<noteq> CHR ''\"'' \<and> b \<noteq> CHR ''&''
                    \<and> b \<noteq> CHR ''<'' \<and> b \<noteq> CHR ''>'' \<and> b \<noteq> backslash)"

text \<open>The escape \<^verbatim>\<open>appendString\<close> writes for an ASCII byte outside \<open>htmlSafeSet\<close>.\<close>

definition escapeByte :: "char \<Rightarrow> bytes" where
  "escapeByte b =
     (if b = backslash \<or> b = CHR ''\"'' then [backslash, b]
      else if b = CHR 0x08 then [backslash, CHR ''b'']
      else if b = CHR 0x0C then [backslash, CHR ''f'']
      else if b = CHR 0x0A then [backslash, CHR ''n'']
      else if b = CHR 0x0D then [backslash, CHR ''r'']
      else if b = CHR 0x09 then [backslash, CHR ''t'']
      else [backslash, CHR ''u'', CHR ''0'', CHR ''0'', hex ! (byte b div 16), hex ! (byte b mod 16)])"

text \<open>
  The loop of \<^verbatim>\<open>appendString(dst, src, escapeHTML = true)\<close>, read from position \<open>i\<close> on: what it
  appends for the rest of \<open>src\<close>. Go copies the unescaped stretches in one piece
  (\<^verbatim>\<open>src[start:i]\<close>); here every byte is appended when the loop passes it.
\<close>

function appendString_loop :: "bytes \<Rightarrow> bytes" where
  "appendString_loop src =
     (case src of
        [] \<Rightarrow> []
      | b # rest \<Rightarrow>
          if byte b < 0x80 then
            (if htmlSafeSet b then [b] else escapeByte b) @ appendString_loop rest
          else
            let c = fst (DecodeRune src); size = snd (DecodeRune src) in
            if c = RuneError \<and> size = 1 then
              (backslash # ''ufffd'') @ appendString_loop (drop size src)
            else if c = 0x2028 \<or> c = 0x2029 then
              (backslash # ''u202'') @ [hex ! (c mod 16)] @ appendString_loop (drop size src)
            else take size src @ appendString_loop (drop size src))"
  by pat_completeness auto
termination
proof (relation "measure length")
  show "wf (measure length)" by simp
next
  fix src :: bytes and b rest
  assume "src = b # rest"
  then show "(rest, src) \<in> measure length" by simp
next
  fix src :: bytes and b rest x xa
  assume "src = b # rest" "xa = snd (DecodeRune src)"
  then show "(drop xa src, src) \<in> measure length"
    using DecodeRune_drop [of src] by simp
next
  fix src :: bytes and b rest x xa
  assume "src = b # rest" "xa = snd (DecodeRune src)"
  then show "(drop xa src, src) \<in> measure length"
    using DecodeRune_drop [of src] by simp
next
  fix src :: bytes and b rest x xa
  assume "src = b # rest" "xa = snd (DecodeRune src)"
  then show "(drop xa src, src) \<in> measure length"
    using DecodeRune_drop [of src] by simp
qed

declare appendString_loop.simps [simp del]

definition appendString :: "bytes \<Rightarrow> bytes" where
  "appendString src = CHR ''\"'' # appendString_loop src @ [CHR ''\"'']"

text \<open>
  \<^verbatim>\<open>json.Marshal(p)\<close> for a \<^verbatim>\<open>Product\<close>: the five fields in the order of the struct, each
  under the key of its tag. The encoder of this struct type has no failing case, so the result
  is always \<open>Inr\<close>; the type keeps the error of the signature of \<^verbatim>\<open>json.Marshal\<close>.
\<close>

definition json_Marshal :: "Product \<Rightarrow> error + bytes" where
  "json_Marshal p =
     Inr (''{\"title\":'' @ appendString (Title p)
          @ '',\"description\":'' @ appendString (Description p)
          @ '',\"price\":'' @ FormatInt (sint (Price p))
          @ '',\"brand\":'' @ appendString (Brand p)
          @ '',\"category\":'' @ appendString (Category p) @ ''}'')"


section \<open>encoding/json: the scanner\<close>

text \<open>
  The scanner of \<^verbatim>\<open>scanner.go\<close> is a state machine fed one byte at a time. Its field
  \<^verbatim>\<open>step\<close> holds the state function to call on the next byte: here a tag \<open>StateX\<close> for the
  Go function \<^verbatim>\<open>stateX\<close>, and \<open>scan_step\<close> calls the function of the tag. \<open>parseState\<close> is the
  stack of the open objects and arrays, the innermost first (Go appends it at the end of a
  slice). \<open>err\<close> is the syntax error the scanner recorded.
\<close>

datatype opcode =
    scanContinue | scanBeginLiteral | scanBeginObject | scanObjectKey | scanObjectValue
  | scanEndObject | scanBeginArray | scanArrayValue | scanEndArray | scanSkipSpace
  | scanEnd | scanError

datatype parseKind = parseObjectKey | parseObjectValue | parseArrayValue

datatype stepFn =
    StateBeginValueOrEmpty | StateBeginValue | StateBeginStringOrEmpty | StateBeginString
  | StateEndValue | StateEndTop
  | StateInString | StateInStringEsc | StateInStringEscU | StateInStringEscU1
  | StateInStringEscU12 | StateInStringEscU123
  | StateNeg | State1 | State0 | StateDot | StateDot0 | StateE | StateESign | StateE0
  | StateT | StateTr | StateTru | StateF | StateFa | StateFal | StateFals
  | StateN | StateNu | StateNul | StateError

record scanner =
  step :: stepFn
  endTop :: bool
  parseState :: "parseKind list"
  err :: "error option"

definition maxNestingDepth :: nat where
  "maxNestingDepth = 10000"

text \<open>\<^verbatim>\<open>scanner.reset\<close>.\<close>

definition reset :: scanner where
  "reset = \<lparr>step = StateBeginValue, endTop = False, parseState = [], err = None\<rparr>"

text \<open>\<^verbatim>\<open>scanner.error\<close>: records the error and switches to the error state.\<close>

definition scan_error :: "scanner \<Rightarrow> opcode \<times> scanner" where
  "scan_error s = (scanError, s\<lparr>step := StateError, err := Some SyntaxError\<rparr>)"

definition pushParseState :: "scanner \<Rightarrow> parseKind \<Rightarrow> opcode \<Rightarrow> opcode \<times> scanner" where
  "pushParseState s newParseState successState =
     (let s' = s\<lparr>parseState := newParseState # parseState s\<rparr> in
      if length (parseState s') \<le> maxNestingDepth then (successState, s') else scan_error s')"

definition popParseState :: "scanner \<Rightarrow> scanner" where
  "popParseState s =
     (let ps = tl (parseState s) in
      if ps = [] then s\<lparr>parseState := ps, step := StateEndTop, endTop := True\<rparr>
      else s\<lparr>parseState := ps, step := StateEndValue\<rparr>)"

definition isSpace :: "char \<Rightarrow> bool" where
  "isSpace c = (c = CHR '' '' \<or> c = CHR 0x09 \<or> c = CHR 0x0D \<or> c = CHR 0x0A)"

definition isDigit :: "char \<Rightarrow> bool" where
  "isDigit c = (byte CHR ''0'' \<le> byte c \<and> byte c \<le> byte CHR ''9'')"

definition isDigit19 :: "char \<Rightarrow> bool" where
  "isDigit19 c = (byte CHR ''1'' \<le> byte c \<and> byte c \<le> byte CHR ''9'')"

definition isHex :: "char \<Rightarrow> bool" where
  "isHex c = (isDigit c \<or> byte CHR ''a'' \<le> byte c \<and> byte c \<le> byte CHR ''f''
              \<or> byte CHR ''A'' \<le> byte c \<and> byte c \<le> byte CHR ''F'')"

text \<open>\<^verbatim>\<open>stateEndTop\<close>: after the top-level value; it reports the end whatever the byte is.\<close>

definition stateEndTop :: "scanner \<Rightarrow> char \<Rightarrow> opcode \<times> scanner" where
  "stateEndTop s c =
     (if \<not> isSpace c then (scanEnd, snd (scan_error s)) else (scanEnd, s))"

text \<open>\<^verbatim>\<open>stateEndValue\<close>: after a complete value, such as after \<^verbatim>\<open>{}\<close> or \<^verbatim>\<open>true\<close>.\<close>

definition stateEndValue :: "scanner \<Rightarrow> char \<Rightarrow> opcode \<times> scanner" where
  "stateEndValue s c =
     (case parseState s of
        [] \<Rightarrow> stateEndTop (s\<lparr>step := StateEndTop, endTop := True\<rparr>) c
      | ps # rest \<Rightarrow>
          if isSpace c then (scanSkipSpace, s\<lparr>step := StateEndValue\<rparr>)
          else (case ps of
            parseObjectKey \<Rightarrow>
              if c = CHR '':''
              then (scanObjectKey, s\<lparr>parseState := parseObjectValue # rest, step := StateBeginValue\<rparr>)
              else scan_error s
          | parseObjectValue \<Rightarrow>
              if c = CHR '',''
              then (scanObjectValue, s\<lparr>parseState := parseObjectKey # rest, step := StateBeginString\<rparr>)
              else if c = CHR ''}'' then (scanEndObject, popParseState s)
              else scan_error s
          | parseArrayValue \<Rightarrow>
              if c = CHR '',''
              then (scanArrayValue, s\<lparr>step := StateBeginValue\<rparr>)
              else if c = CHR '']'' then (scanEndArray, popParseState s)
              else scan_error s))"

text \<open>\<^verbatim>\<open>stateBeginValue\<close>: at the beginning of a value.\<close>

definition stateBeginValue :: "scanner \<Rightarrow> char \<Rightarrow> opcode \<times> scanner" where
  "stateBeginValue s c =
     (if isSpace c then (scanSkipSpace, s)
      else if c = CHR ''{'' then
        pushParseState (s\<lparr>step := StateBeginStringOrEmpty\<rparr>) parseObjectKey scanBeginObject
      else if c = CHR ''['' then
        pushParseState (s\<lparr>step := StateBeginValueOrEmpty\<rparr>) parseArrayValue scanBeginArray
      else if c = CHR ''\"'' then (scanBeginLiteral, s\<lparr>step := StateInString\<rparr>)
      else if c = CHR ''-'' then (scanBeginLiteral, s\<lparr>step := StateNeg\<rparr>)
      else if c = CHR ''0'' then (scanBeginLiteral, s\<lparr>step := State0\<rparr>)
      else if c = CHR ''t'' then (scanBeginLiteral, s\<lparr>step := StateT\<rparr>)
      else if c = CHR ''f'' then (scanBeginLiteral, s\<lparr>step := StateF\<rparr>)
      else if c = CHR ''n'' then (scanBeginLiteral, s\<lparr>step := StateN\<rparr>)
      else if isDigit19 c then (scanBeginLiteral, s\<lparr>step := State1\<rparr>)
      else scan_error s)"

text \<open>\<^verbatim>\<open>stateBeginValueOrEmpty\<close>: after \<^verbatim>\<open>[\<close>.\<close>

definition stateBeginValueOrEmpty :: "scanner \<Rightarrow> char \<Rightarrow> opcode \<times> scanner" where
  "stateBeginValueOrEmpty s c =
     (if isSpace c then (scanSkipSpace, s)
      else if c = CHR '']'' then stateEndValue s c
      else stateBeginValue s c)"

text \<open>\<^verbatim>\<open>stateBeginString\<close>: after \<^verbatim>\<open>{"key": value,\<close>.\<close>

definition stateBeginString :: "scanner \<Rightarrow> char \<Rightarrow> opcode \<times> scanner" where
  "stateBeginString s c =
     (if isSpace c then (scanSkipSpace, s)
      else if c = CHR ''\"'' then (scanBeginLiteral, s\<lparr>step := StateInString\<rparr>)
      else scan_error s)"

text \<open>\<^verbatim>\<open>stateBeginStringOrEmpty\<close>: after \<^verbatim>\<open>{\<close>.\<close>

definition stateBeginStringOrEmpty :: "scanner \<Rightarrow> char \<Rightarrow> opcode \<times> scanner" where
  "stateBeginStringOrEmpty s c =
     (if isSpace c then (scanSkipSpace, s)
      else if c = CHR ''}'' then
        stateEndValue (s\<lparr>parseState := parseObjectValue # tl (parseState s)\<rparr>) c
      else stateBeginString s c)"

text \<open>The states inside a string.\<close>

definition stateInString :: "scanner \<Rightarrow> char \<Rightarrow> opcode \<times> scanner" where
  "stateInString s c =
     (if c = CHR ''\"'' then (scanContinue, s\<lparr>step := StateEndValue\<rparr>)
      else if c = backslash then (scanContinue, s\<lparr>step := StateInStringEsc\<rparr>)
      else if byte c < 0x20 then scan_error s
      else (scanContinue, s))"

definition stateInStringEsc :: "scanner \<Rightarrow> char \<Rightarrow> opcode \<times> scanner" where
  "stateInStringEsc s c =
     (if c = CHR ''b'' \<or> c = CHR ''f'' \<or> c = CHR ''n'' \<or> c = CHR ''r'' \<or> c = CHR ''t''
         \<or> c = backslash \<or> c = CHR ''/'' \<or> c = CHR ''\"''
      then (scanContinue, s\<lparr>step := StateInString\<rparr>)
      else if c = CHR ''u'' then (scanContinue, s\<lparr>step := StateInStringEscU\<rparr>)
      else scan_error s)"

text \<open>
  \<^verbatim>\<open>stateInStringEscU\<close>, \<^verbatim>\<open>stateInStringEscU1\<close>, \<^verbatim>\<open>stateInStringEscU12\<close> and
  \<^verbatim>\<open>stateInStringEscU123\<close> differ in the state they go to: \<open>next\<close>.
\<close>

definition stateInStringEscU_any :: "stepFn \<Rightarrow> scanner \<Rightarrow> char \<Rightarrow> opcode \<times> scanner" where
  "stateInStringEscU_any next s c =
     (if isHex c then (scanContinue, s\<lparr>step := next\<rparr>) else scan_error s)"

text \<open>The states inside a number.\<close>

definition stateNeg :: "scanner \<Rightarrow> char \<Rightarrow> opcode \<times> scanner" where
  "stateNeg s c =
     (if c = CHR ''0'' then (scanContinue, s\<lparr>step := State0\<rparr>)
      else if isDigit19 c then (scanContinue, s\<lparr>step := State1\<rparr>)
      else scan_error s)"

definition state0 :: "scanner \<Rightarrow> char \<Rightarrow> opcode \<times> scanner" where
  "state0 s c =
     (if c = CHR ''.'' then (scanContinue, s\<lparr>step := StateDot\<rparr>)
      else if c = CHR ''e'' \<or> c = CHR ''E'' then (scanContinue, s\<lparr>step := StateE\<rparr>)
      else stateEndValue s c)"

definition state1 :: "scanner \<Rightarrow> char \<Rightarrow> opcode \<times> scanner" where
  "state1 s c =
     (if isDigit c then (scanContinue, s\<lparr>step := State1\<rparr>) else state0 s c)"

definition stateDot :: "scanner \<Rightarrow> char \<Rightarrow> opcode \<times> scanner" where
  "stateDot s c =
     (if isDigit c then (scanContinue, s\<lparr>step := StateDot0\<rparr>) else scan_error s)"

definition stateDot0 :: "scanner \<Rightarrow> char \<Rightarrow> opcode \<times> scanner" where
  "stateDot0 s c =
     (if isDigit c then (scanContinue, s)
      else if c = CHR ''e'' \<or> c = CHR ''E'' then (scanContinue, s\<lparr>step := StateE\<rparr>)
      else stateEndValue s c)"

definition stateESign :: "scanner \<Rightarrow> char \<Rightarrow> opcode \<times> scanner" where
  "stateESign s c =
     (if isDigit c then (scanContinue, s\<lparr>step := StateE0\<rparr>) else scan_error s)"

definition stateE :: "scanner \<Rightarrow> char \<Rightarrow> opcode \<times> scanner" where
  "stateE s c =
     (if c = CHR ''+'' \<or> c = CHR ''-'' then (scanContinue, s\<lparr>step := StateESign\<rparr>)
      else stateESign s c)"

definition stateE0 :: "scanner \<Rightarrow> char \<Rightarrow> opcode \<times> scanner" where
  "stateE0 s c = (if isDigit c then (scanContinue, s) else stateEndValue s c)"

text \<open>
  The states inside \<^verbatim>\<open>true\<close>, \<^verbatim>\<open>false\<close> and \<^verbatim>\<open>null\<close> (\<^verbatim>\<open>stateT\<close>, \<^verbatim>\<open>stateTr\<close>, ...) expect one
  byte \<open>want\<close> and go to the state \<open>next\<close>.
\<close>

definition stateLetter :: "char \<Rightarrow> stepFn \<Rightarrow> scanner \<Rightarrow> char \<Rightarrow> opcode \<times> scanner" where
  "stateLetter want next s c =
     (if c = want then (scanContinue, s\<lparr>step := next\<rparr>) else scan_error s)"

text \<open>\<^verbatim>\<open>s.step(s, c)\<close>.\<close>

definition scan_step :: "scanner \<Rightarrow> char \<Rightarrow> opcode \<times> scanner" where
  "scan_step s c =
     (case step s of
        StateBeginValueOrEmpty \<Rightarrow> stateBeginValueOrEmpty s c
      | StateBeginValue \<Rightarrow> stateBeginValue s c
      | StateBeginStringOrEmpty \<Rightarrow> stateBeginStringOrEmpty s c
      | StateBeginString \<Rightarrow> stateBeginString s c
      | StateEndValue \<Rightarrow> stateEndValue s c
      | StateEndTop \<Rightarrow> stateEndTop s c
      | StateInString \<Rightarrow> stateInString s c
      | StateInStringEsc \<Rightarrow> stateInStringEsc s c
      | StateInStringEscU \<Rightarrow> stateInStringEscU_any StateInStringEscU1 s c
      | StateInStringEscU1 \<Rightarrow> stateInStringEscU_any StateInStringEscU12 s c
      | StateInStringEscU12 \<Rightarrow> stateInStringEscU_any StateInStringEscU123 s c
      | StateInStringEscU123 \<Rightarrow> stateInStringEscU_any StateInString s c
      | StateNeg \<Rightarrow> stateNeg s c
      | State1 \<Rightarrow> state1 s c
      | State0 \<Rightarrow> state0 s c
      | StateDot \<Rightarrow> stateDot s c
      | StateDot0 \<Rightarrow> stateDot0 s c
      | StateE \<Rightarrow> stateE s c
      | StateESign \<Rightarrow> stateESign s c
      | StateE0 \<Rightarrow> stateE0 s c
      | StateT \<Rightarrow> stateLetter CHR ''r'' StateTr s c
      | StateTr \<Rightarrow> stateLetter CHR ''u'' StateTru s c
      | StateTru \<Rightarrow> stateLetter CHR ''e'' StateEndValue s c
      | StateF \<Rightarrow> stateLetter CHR ''a'' StateFa s c
      | StateFa \<Rightarrow> stateLetter CHR ''l'' StateFal s c
      | StateFal \<Rightarrow> stateLetter CHR ''s'' StateFals s c
      | StateFals \<Rightarrow> stateLetter CHR ''e'' StateEndValue s c
      | StateN \<Rightarrow> stateLetter CHR ''u'' StateNu s c
      | StateNu \<Rightarrow> stateLetter CHR ''l'' StateNul s c
      | StateNul \<Rightarrow> stateLetter CHR ''l'' StateEndValue s c
      | StateError \<Rightarrow> (scanError, s))"


section \<open>encoding/json: reading one value\<close>

text \<open>
  A JSON value as the decoder walks it: an object is the list of its members in the order of
  the text, each key being the bytes of its string literal; a literal (string, number,
  \<^verbatim>\<open>true\<close>, \<^verbatim>\<open>false\<close>, \<^verbatim>\<open>null\<close>) is the bytes of its text, a string with its quotes.
\<close>

datatype json = Object "(bytes \<times> json) list" | Array "json list" | Literal bytes

text \<open>
  \<^verbatim>\<open>Decoder.Decode\<close> runs the scanner twice over the bytes: \<^verbatim>\<open>readValue\<close> finds where the
  first value ends and whether it is well-formed, then \<^verbatim>\<open>decodeState.value\<close> walks the same
  bytes, driven by the same opcodes. The model runs the scanner once and keeps what the walk
  keeps: \<open>lit\<close>, the bytes of the literal being read (\<^verbatim>\<open>d.data[start:d.readIndex()]\<close>); \<open>cur\<close>,
  the object or array that was just closed; \<open>frames\<close>, the members or elements read so far of
  every open object or array, the innermost first, an object with the key whose value is
  being read.
\<close>

datatype frame = ObjectFrame "(bytes \<times> json) list" "bytes option" | ArrayFrame "json list"

record reader =
  scan :: scanner
  lit :: bytes
  cur :: "json option"
  frames :: "frame list"

text \<open>The value that was just read: the literal, or the object or array just closed.\<close>

definition current :: "reader \<Rightarrow> json option" where
  "current r = (if lit r \<noteq> [] then Some (Literal (lit r)) else cur r)"

definition attach :: "json option \<Rightarrow> frame list \<Rightarrow> frame list" where
  "attach v fs =
     (case v of
        None \<Rightarrow> fs
      | Some x \<Rightarrow>
          (case fs of
             ObjectFrame ms (Some k) # fs' \<Rightarrow> ObjectFrame (ms @ [(k, x)]) None # fs'
           | ArrayFrame xs # fs' \<Rightarrow> ArrayFrame (xs @ [x]) # fs'
           | _ \<Rightarrow> fs))"

text \<open>
  What the walk does on the opcode the scanner returned for the byte \<open>c\<close>. Where Go would stop
  with \<^verbatim>\<open>panic(phasePanicMsg)\<close> (the opcodes do not fit the open object or array, which the
  scanner excludes) the reader is left as it is.
\<close>

definition walk :: "opcode \<Rightarrow> char \<Rightarrow> reader \<Rightarrow> reader" where
  "walk op c r =
     (case op of
        scanBeginLiteral \<Rightarrow> r\<lparr>lit := [c], cur := None\<rparr>
      | scanContinue \<Rightarrow> r\<lparr>lit := lit r @ [c]\<rparr>
      | scanBeginObject \<Rightarrow> r\<lparr>lit := [], cur := None, frames := ObjectFrame [] None # frames r\<rparr>
      | scanBeginArray \<Rightarrow> r\<lparr>lit := [], cur := None, frames := ArrayFrame [] # frames r\<rparr>
      | scanObjectKey \<Rightarrow>
          (case frames r of
             ObjectFrame ms _ # fs \<Rightarrow>
               r\<lparr>lit := [], cur := None, frames := ObjectFrame ms (Some (lit r)) # fs\<rparr>
           | _ \<Rightarrow> r)
      | scanObjectValue \<Rightarrow> r\<lparr>lit := [], cur := None, frames := attach (current r) (frames r)\<rparr>
      | scanArrayValue \<Rightarrow> r\<lparr>lit := [], cur := None, frames := attach (current r) (frames r)\<rparr>
      | scanEndObject \<Rightarrow>
          (case attach (current r) (frames r) of
             ObjectFrame ms _ # fs \<Rightarrow> r\<lparr>lit := [], cur := Some (Object ms), frames := fs\<rparr>
           | _ \<Rightarrow> r)
      | scanEndArray \<Rightarrow>
          (case attach (current r) (frames r) of
             ArrayFrame xs # fs \<Rightarrow> r\<lparr>lit := [], cur := Some (Array xs), frames := fs\<rparr>
           | _ \<Rightarrow> r)
      | _ \<Rightarrow> r)"

text \<open>The object or array that a closing byte at the top level completed.\<close>

definition closed :: "reader \<Rightarrow> json" where
  "closed r = (case cur r of Some v \<Rightarrow> v | None \<Rightarrow> Literal [])"

text \<open>
  The loop of \<^verbatim>\<open>Decoder.readValue\<close> over the bytes of the body that are still to be read;
  \<open>ns\<close> is \<^verbatim>\<open>nonSpace(dec.buf)\<close>. The body is a sequence of bytes that ends (the read after
  the last byte returns \<^verbatim>\<open>io.EOF\<close>); a transport failing in the middle of the body is not
  modelled. The value ends at the byte that closes a top-level object or array. A top-level
  literal ends before the first byte that cannot continue it (\<open>scanEnd\<close>, which the scanner
  reports one byte late and only after a top-level literal), or at the end of the bytes.
  Bytes after the value are not read.
\<close>

fun readValue :: "reader \<Rightarrow> bytes \<Rightarrow> bool \<Rightarrow> error + json" where
  "readValue r [] ns =
     (if fst (scan_step (scan r) CHR '' '') = scanEnd then Inr (Literal (lit r))
      else if ns then Inl ErrUnexpectedEOF
      else Inl EOF)"
| "readValue r (c # cs) ns =
     (case scan_step (scan r) c of (op, s') \<Rightarrow>
        if op = scanEnd then Inr (Literal (lit r))
        else if op = scanEndObject \<or> op = scanEndArray then
          (let r' = walk op c (r\<lparr>scan := s'\<rparr>) in
           case stateEndValue s' CHR '' '' of (op2, s'') \<Rightarrow>
             if op2 = scanEnd then Inr (closed r')
             else readValue (r'\<lparr>scan := s''\<rparr>) cs ns)
        else if op = scanError then
          Inl (case err s' of Some e \<Rightarrow> e | None \<Rightarrow> SyntaxError)
        else readValue (walk op c (r\<lparr>scan := s'\<rparr>)) cs ns)"

definition nonSpace :: "bytes \<Rightarrow> bool" where
  "nonSpace b = list_ex (\<lambda>c. \<not> isSpace c) b"

definition newReader :: reader where
  "newReader = \<lparr>scan = reset, lit = [], cur = None, frames = []\<rparr>"

section \<open>encoding/json: storing the value in a Product\<close>

text \<open>\<^verbatim>\<open>getu4\<close>: the value of the escape \<^verbatim>\<open>\uXXXX\<close> at the start of \<open>s\<close>, or \<open>None\<close> (Go's \<open>-1\<close>).\<close>

definition hexValue :: "char \<Rightarrow> nat option" where
  "hexValue c =
     (if isDigit c then Some (byte c - byte CHR ''0'')
      else if byte CHR ''a'' \<le> byte c \<and> byte c \<le> byte CHR ''f'' then Some (byte c - byte CHR ''a'' + 10)
      else if byte CHR ''A'' \<le> byte c \<and> byte c \<le> byte CHR ''F'' then Some (byte c - byte CHR ''A'' + 10)
      else None)"

fun getu4_loop :: "nat \<Rightarrow> bytes \<Rightarrow> nat option" where
  "getu4_loop r [] = Some r"
| "getu4_loop r (c # cs) =
     (case hexValue c of None \<Rightarrow> None | Some d \<Rightarrow> getu4_loop (r * 16 + d) cs)"

definition getu4 :: "bytes \<Rightarrow> nat option" where
  "getu4 s =
     (if length s < 6 \<or> s ! 0 \<noteq> backslash \<or> s ! 1 \<noteq> CHR ''u'' then None
      else getu4_loop 0 (take 4 (drop 2 s)))"

lemma DecodeRune_drop_less: "Suc (length xs) - snd (DecodeRune (x # xs)) < Suc (length xs)"
  using DecodeRune_drop [of "x # xs"] by simp

text \<open>
  The loop of \<^verbatim>\<open>unquoteBytes\<close> over the bytes between the quotes: escapes are replaced by
  what they stand for, invalid UTF-8 by the replacement rune. (Go first looks for a prefix
  that needs no change and copies it; the loop gives the same bytes for it.)
\<close>

function unquote_loop :: "bytes \<Rightarrow> bytes option" where
  "unquote_loop s =
     (case s of
        [] \<Rightarrow> Some []
      | c # rest \<Rightarrow>
          if c = backslash then
            (case rest of
               [] \<Rightarrow> None
             | e # rest' \<Rightarrow>
                 if e = CHR ''\"'' \<or> e = backslash \<or> e = CHR ''/'' \<or> e = CHR 0x27
                   then map_option ((#) e) (unquote_loop rest')
                 else if e = CHR ''b'' then map_option ((#) (CHR 0x08)) (unquote_loop rest')
                 else if e = CHR ''f'' then map_option ((#) (CHR 0x0C)) (unquote_loop rest')
                 else if e = CHR ''n'' then map_option ((#) (CHR 0x0A)) (unquote_loop rest')
                 else if e = CHR ''r'' then map_option ((#) (CHR 0x0D)) (unquote_loop rest')
                 else if e = CHR ''t'' then map_option ((#) (CHR 0x09)) (unquote_loop rest')
                 else if e = CHR ''u'' then
                   (case getu4 s of
                      None \<Rightarrow> None
                    | Some rr \<Rightarrow>
                        if IsSurrogate rr then
                          (let dec = (case getu4 (drop 6 s) of
                                        None \<Rightarrow> 0xFFFD
                                      | Some rr1 \<Rightarrow> utf16_DecodeRune rr rr1)
                           in if dec \<noteq> 0xFFFD
                              then map_option ((@) (EncodeRune dec)) (unquote_loop (drop 12 s))
                              else map_option ((@) (EncodeRune 0xFFFD)) (unquote_loop (drop 6 s)))
                        else map_option ((@) (EncodeRune rr)) (unquote_loop (drop 6 s)))
                 else None)
          else if c = CHR ''\"'' \<or> byte c < 0x20 then None
          else if byte c < 0x80 then map_option ((#) c) (unquote_loop rest)
          else map_option ((@) (EncodeRune (fst (DecodeRune s))))
                 (unquote_loop (drop (snd (DecodeRune s)) s)))"
  by pat_completeness auto
termination
  by (relation "measure length") (auto simp: DecodeRune_drop_less)

declare unquote_loop.simps [simp del]

definition unquoteBytes :: "bytes \<Rightarrow> bytes option" where
  "unquoteBytes s =
     (if length s < 2 \<or> hd s \<noteq> CHR ''\"'' \<or> last s \<noteq> CHR ''\"'' then None
      else unquote_loop (butlast (tl s)))"

text \<open>
  The fields of \<^verbatim>\<open>Product\<close> as \<^verbatim>\<open>cachedTypeFields\<close> lists them: the name of the JSON tag
  and the kind of the Go type.
\<close>

datatype field = fieldTitle | fieldDescription | fieldPrice | fieldBrand | fieldCategory

datatype kind = reflect_Int | reflect_String

definition typeFields :: "field list" where
  "typeFields = [fieldTitle, fieldDescription, fieldPrice, fieldBrand, fieldCategory]"

fun field_name :: "field \<Rightarrow> string" where
  "field_name fieldTitle = ''title''"
| "field_name fieldDescription = ''description''"
| "field_name fieldPrice = ''price''"
| "field_name fieldBrand = ''brand''"
| "field_name fieldCategory = ''category''"

fun field_kind :: "field \<Rightarrow> kind" where
  "field_kind fieldPrice = reflect_Int"
| "field_kind _ = reflect_String"

fun SetString :: "field \<Rightarrow> string \<Rightarrow> Product \<Rightarrow> Product" where
  "SetString fieldTitle x v = v\<lparr>Title := x\<rparr>"
| "SetString fieldDescription x v = v\<lparr>Description := x\<rparr>"
| "SetString fieldBrand x v = v\<lparr>Brand := x\<rparr>"
| "SetString fieldCategory x v = v\<lparr>Category := x\<rparr>"
| "SetString fieldPrice x v = v"

fun SetInt :: "field \<Rightarrow> 64 word \<Rightarrow> Product \<Rightarrow> Product" where
  "SetInt fieldPrice n v = v\<lparr>Price := n\<rparr>"
| "SetInt _ n v = v"

text \<open>
  \<^verbatim>\<open>foldName\<close>: ASCII letters in upper case, every other rune replaced by \<^verbatim>\<open>foldRune\<close>, the
  smallest rune that differs from it only in case. \<open>U+017F\<close> (long s) and \<open>U+212A\<close> (Kelvin
  sign) are the two runes beyond ASCII that fold to an ASCII letter; any other one folds to a
  rune beyond ASCII, for which the rune itself stands here: a key holding one matches no
  field of \<^verbatim>\<open>Product\<close> either way.
\<close>

definition foldRune :: "nat \<Rightarrow> nat" where
  "foldRune r = (if r = 0x17F then 0x53 else if r = 0x212A then 0x4B else r)"

function foldName :: "bytes \<Rightarrow> bytes" where
  "foldName inp =
     (case inp of
        [] \<Rightarrow> []
      | c # rest \<Rightarrow>
          if byte c < 0x80 then
            (if byte CHR ''a'' \<le> byte c \<and> byte c \<le> byte CHR ''z''
             then char_of (byte c - 32) else c) # foldName rest
          else EncodeRune (foldRune (fst (DecodeRune inp)))
                 @ foldName (drop (snd (DecodeRune inp)) inp))"
  by pat_completeness auto
termination
  by (relation "measure length") (auto simp: DecodeRune_drop_less)

declare foldName.simps [simp del]

text \<open>
  The field for a key: \<^verbatim>\<open>fields.byExactName[key]\<close>, and when there is none
  \<^verbatim>\<open>fields.byFoldedName[foldName(key)]\<close>.
\<close>

definition byExactName :: "bytes \<Rightarrow> field option" where
  "byExactName key = find (\<lambda>f. field_name f = key) typeFields"

definition byFoldedName :: "bytes \<Rightarrow> field option" where
  "byFoldedName folded = find (\<lambda>f. foldName (field_name f) = folded) typeFields"

definition lookupField :: "bytes \<Rightarrow> field option" where
  "lookupField key =
     (case byExactName key of Some f \<Rightarrow> Some f | None \<Rightarrow> byFoldedName (foldName key))"

text \<open>
  The state of the store: the Product being filled (\<^verbatim>\<open>result\<close>, through the pointer) and
  \<^verbatim>\<open>d.savedError\<close>. \<^verbatim>\<open>saveError\<close> keeps the first error; decoding goes on after it.
\<close>

type_synonym store = "Product \<times> error option"

definition saveError :: "error \<Rightarrow> store \<Rightarrow> store" where
  "saveError e st = (case snd st of None \<Rightarrow> (fst st, Some e) | Some _ \<Rightarrow> st)"

text \<open>
  \<^verbatim>\<open>literalStore\<close> into a field of kind string or int. \<^verbatim>\<open>null\<close> leaves the field as it is.
  An empty literal and a string that does not unquote cannot come from the scanner.
\<close>

definition literalStore :: "bytes \<Rightarrow> field \<Rightarrow> store \<Rightarrow> store" where
  "literalStore item f st =
     (case item of
        [] \<Rightarrow> saveError (errorString ''json: invalid use of ,string struct tag'') st
      | c # _ \<Rightarrow>
          if c = CHR ''n'' then st
          else if c = CHR ''t'' \<or> c = CHR ''f'' then
            saveError (UnmarshalTypeError ''bool'' (field_name f)) st
          else if c = CHR ''\"'' then
            (case unquoteBytes item of
               None \<Rightarrow> st
             | Some x \<Rightarrow>
                 (case field_kind f of
                    reflect_String \<Rightarrow> (SetString f x (fst st), snd st)
                  | reflect_Int \<Rightarrow> saveError (UnmarshalTypeError ''string'' (field_name f)) st))
          else
            (case field_kind f of
               reflect_Int \<Rightarrow>
                 (case ParseInt item of
                    None \<Rightarrow> saveError (UnmarshalTypeError (''number '' @ item) (field_name f)) st
                  | Some n \<Rightarrow> (SetInt f n (fst st), snd st))
             | reflect_String \<Rightarrow> saveError (UnmarshalTypeError ''number'' (field_name f)) st))"

text \<open>
  \<^verbatim>\<open>d.value\<close> for a field: an object or an array does not fit a string or an int; the error
  is saved and the value skipped.
\<close>

definition value_field :: "json \<Rightarrow> field \<Rightarrow> store \<Rightarrow> store" where
  "value_field v f st =
     (case v of
        Literal item \<Rightarrow> literalStore item f st
      | Object _ \<Rightarrow> saveError (UnmarshalTypeError ''object'' (field_name f)) st
      | Array _ \<Rightarrow> saveError (UnmarshalTypeError ''array'' (field_name f)) st)"

text \<open>
  One turn of the loop of \<^verbatim>\<open>d.object\<close> for the struct: the key is unquoted, its field
  looked up, and the value stored in the field; the value of a key without a field is skipped.
\<close>

definition member :: "store \<Rightarrow> bytes \<times> json \<Rightarrow> store" where
  "member st kv =
     (case unquoteBytes (fst kv) of
        None \<Rightarrow> st
      | Some key \<Rightarrow>
          (case lookupField key of
             None \<Rightarrow> st
           | Some f \<Rightarrow> value_field (snd kv) f st))"

definition object :: "(bytes \<times> json) list \<Rightarrow> store \<Rightarrow> store" where
  "object ms st = foldl member st ms"

text \<open>
  \<^verbatim>\<open>d.value\<close> at the top, for the \<^verbatim>\<open>Product\<close> itself: only an object fits the struct, and
  \<^verbatim>\<open>null\<close> is accepted and changes nothing.
\<close>

definition value_top :: "json \<Rightarrow> store \<Rightarrow> store" where
  "value_top v st =
     (case v of
        Object ms \<Rightarrow> object ms st
      | Array _ \<Rightarrow> saveError (UnmarshalTypeError ''array'' []) st
      | Literal item \<Rightarrow>
          (case item of
             [] \<Rightarrow> saveError (errorString ''json: invalid use of ,string struct tag'') st
           | c # _ \<Rightarrow>
               if c = CHR ''n'' then st
               else if c = CHR ''t'' \<or> c = CHR ''f'' then saveError (UnmarshalTypeError ''bool'' []) st
               else if c = CHR ''\"'' then saveError (UnmarshalTypeError ''string'' []) st
               else saveError (UnmarshalTypeError ''number'' []) st))"

text \<open>
  \<^verbatim>\<open>json.NewDecoder(body).Decode(&v)\<close> on a fresh decoder: the Product \<open>v\<close> points to after
  the call, and the error returned.
\<close>

definition Decode :: "bytes \<Rightarrow> Product \<Rightarrow> Product \<times> error option" where
  "Decode body v =
     (case readValue newReader body (nonSpace body) of
        Inl e \<Rightarrow> (v, Some e)
      | Inr tree \<Rightarrow> value_top tree (v, None))"


section \<open>net/url and net/http\<close>

text \<open>The parsed form of a URL (\<^verbatim>\<open>url.URL\<close>; \<open>URL_Host\<close> is its field \<^verbatim>\<open>Host\<close>).\<close>

record URL =
  Scheme :: string
  Opaque :: string
  User :: "(string \<times> string option) option"
  URL_Host :: string
  Path :: string
  RawPath :: string
  OmitHost :: bool
  ForceQuery :: bool
  RawQuery :: string
  Fragment :: string
  RawFragment :: string

definition stringContainsCTLByte :: "string \<Rightarrow> bool" where
  "stringContainsCTLByte s = list_ex (\<lambda>b. byte b < 0x20 \<or> byte b = 0x7F) s"

text \<open>
  \<^verbatim>\<open>url.Parse\<close>. The text before the first \<^verbatim>\<open>#\<close> is refused when it holds an ASCII control
  byte; that is the first check of the parser and the one the program's tests reach. The
  grammar that follows (scheme, authority, host and port, escapes, fragment) is the parameter
  \<open>grammar\<close>: it gets the text and returns the parsed URL or the error of \<^verbatim>\<open>url.Parse\<close>.
\<close>

definition url_Parse :: "(string \<Rightarrow> error + URL) \<Rightarrow> string \<Rightarrow> error + URL" where
  "url_Parse grammar rawURL =
     (let u = takeWhile (\<lambda>c. c \<noteq> CHR ''#'') rawURL in
      if stringContainsCTLByte u
      then Inl (url_Error ''parse'' u (errorString ''net/url: invalid control character in URL''))
      else grammar rawURL)"

text \<open>\<^verbatim>\<open>httpguts.IsTokenRune\<close> and \<^verbatim>\<open>validMethod\<close> of net/http.\<close>

definition isTokenRune :: "char \<Rightarrow> bool" where
  "isTokenRune c =
     (c \<in> set ''!#$%&*+-.^_`|~'' \<or> c = CHR 0x27 \<or> isDigit c
      \<or> byte CHR ''a'' \<le> byte c \<and> byte c \<le> byte CHR ''z''
      \<or> byte CHR ''A'' \<le> byte c \<and> byte c \<le> byte CHR ''Z'')"

definition validMethod :: "string \<Rightarrow> bool" where
  "validMethod method = (method \<noteq> [] \<and> list_all isTokenRune method)"

text \<open>\<^verbatim>\<open>removeEmptyPort\<close>: a host that ends in a colon with no port loses the colon.\<close>

definition hasPort :: "string \<Rightarrow> bool" where
  "hasPort h =
     (CHR '':'' \<in> set h \<and> CHR '']'' \<notin> set (takeWhile (\<lambda>c. c \<noteq> CHR '':'') (rev h)))"

definition removeEmptyPort :: "string \<Rightarrow> string" where
  "removeEmptyPort h = (if hasPort h \<and> h \<noteq> [] \<and> last h = CHR '':'' then butlast h else h)"

text \<open>
  \<^verbatim>\<open>http.Header\<close>: the keys with their values. \<^verbatim>\<open>Header.Set\<close> replaces the values of the
  key; the key is put in canonical form first, which \<^verbatim>\<open>Content-Type\<close>, the one key the
  program sets, is already.
\<close>

type_synonym Header = "(string \<times> string list) list"

definition Header_Set :: "string \<Rightarrow> string \<Rightarrow> Header \<Rightarrow> Header" where
  "Header_Set key val h = filter (\<lambda>kv. fst kv \<noteq> key) h @ [(key, [val])]"

definition Header_Get :: "string \<Rightarrow> Header \<Rightarrow> string" where
  "Header_Get key h =
     (case map_of h key of None \<Rightarrow> [] | Some vs \<Rightarrow> (case vs of [] \<Rightarrow> [] | v # _ \<Rightarrow> v))"

text \<open>\<^verbatim>\<open>http.Request\<close>, with the body as the bytes the reader will deliver.\<close>

record Request =
  Method :: string
  URL :: URL
  Header :: Header
  Body :: bytes
  ContentLength :: int
  Host :: string

text \<open>\<^verbatim>\<open>http.Response\<close>: the status code, and the bytes of its \<^verbatim>\<open>Body\<close>.\<close>

record Response =
  StatusCode :: "64 word"
  ResponseBody :: bytes

text \<open>\<^verbatim>\<open>http.NewRequest(method, url, bytes.NewBuffer(body))\<close>.\<close>

definition http_NewRequest ::
  "(string \<Rightarrow> error + URL) \<Rightarrow> string \<Rightarrow> string \<Rightarrow> bytes \<Rightarrow> error + Request" where
  "http_NewRequest grammar method0 url body =
     (let method = (if method0 = [] then ''GET'' else method0) in
      if \<not> validMethod method then Inl (invalidMethod method)
      else case url_Parse grammar url of
        Inl e \<Rightarrow> Inl e
      | Inr u \<Rightarrow>
          Inr \<lparr>Method = method, URL = u\<lparr>URL_Host := removeEmptyPort (URL_Host u)\<rparr>,
               Header = [], Body = body, ContentLength = int (length body),
               Host = removeEmptyPort (URL_Host u)\<rparr>)"

definition MethodPost :: string where
  "MethodPost = ''POST''"

section \<open>The product service\<close>

text \<open>
  \<^verbatim>\<open>MarshalFunc\<close> is only ever given a Product. The client is what \<^verbatim>\<open>client.Do\<close> answers to
  a request, a response or an error; \<open>None\<close> is the nil pointer.
\<close>

type_synonym MarshalFunc = "Product \<Rightarrow> error + bytes"

type_synonym Client = "Request \<Rightarrow> error + Response"

definition DefaultMarshal :: MarshalFunc where
  "DefaultMarshal = json_Marshal"

record productService =
  apiURL :: string
  client :: "Client option"
  marshal :: MarshalFunc

definition NewProductService :: "string \<Rightarrow> Client option \<Rightarrow> productService" where
  "NewProductService url c = \<lparr>apiURL = url, client = c, marshal = DefaultMarshal\<rparr>"

text \<open>
  What a call can change: the service the receiver points to, and the world outside, of
  which \<open>calls\<close> keeps the requests handed to \<^verbatim>\<open>client.Do\<close>, in order.
\<close>

record state =
  receiver :: productService
  calls :: "Request list"

text \<open>A call returns its results, or panics (calling \<^verbatim>\<open>Do\<close> on a nil client).\<close>

datatype 'a outcome = Panic | Return 'a

text \<open>
  \<^verbatim>\<open>func (s *productService) AddProduct(p Product) (Product, error)\<close>: the results, a nil
  error being \<open>None\<close>, and the state after the call. The body is marshalled by
  \<^verbatim>\<open>json.Marshal\<close>, as the source calls it. The response body is closed by the deferred
  call on every path after the response; that leaves no trace in the results.
\<close>

definition AddProduct ::
  "(string \<Rightarrow> error + URL) \<Rightarrow> Product \<Rightarrow> state \<Rightarrow> (Product \<times> error option) outcome \<times> state" where
  "AddProduct grammar p \<sigma> =
     (let s = receiver \<sigma> in
      case json_Marshal p of
        Inl e \<Rightarrow> (Return (Product_zero, Some (wrapError ''failed to marshal product: '' e)), \<sigma>)
      | Inr body \<Rightarrow>
          (case http_NewRequest grammar MethodPost (apiURL s) body of
             Inl e \<Rightarrow> (Return (Product_zero, Some (wrapError ''failed to create request: '' e)), \<sigma>)
           | Inr req0 \<Rightarrow>
               (let req = req0\<lparr>Header := Header_Set ''Content-Type'' ''application/json'' (Header req0)\<rparr> in
                case client s of
                  None \<Rightarrow> (Panic, \<sigma>)
                | Some do \<Rightarrow>
                    (let \<sigma>' = \<sigma>\<lparr>calls := calls \<sigma> @ [req]\<rparr> in
                     case do req of
                       Inl e \<Rightarrow>
                         (Return (Product_zero, Some (wrapError ''failed to send request: '' e)), \<sigma>')
                     | Inr resp \<Rightarrow>
                         if StatusCode resp \<noteq> 200 \<and> StatusCode resp \<noteq> 201 then
                           (Return (Product_zero,
                              Some (errorString (''unexpected status code: ''
                                      @ FormatInt (sint (StatusCode resp))))), \<sigma>')
                         else
                           (case Decode (ResponseBody resp) Product_zero of
                              (result, Some e) \<Rightarrow>
                                (Return (Product_zero,
                                   Some (wrapError ''failed to decode response: '' e)), \<sigma>')
                            | (result, None) \<Rightarrow> (Return (result, None), \<sigma>'))))))"


section \<open>Examples used to instantiate the theorems\<close>

text \<open>A stand-in for the URL grammar that accepts every text and takes what follows \<^verbatim>\<open>http://\<close> as the host.\<close>

definition hostOnly :: "string \<Rightarrow> error + URL" where
  "hostOnly raw =
     Inr \<lparr>Scheme = ''http'', Opaque = [], User = None, URL_Host = drop 7 raw, Path = [],
          RawPath = [], OmitHost = False, ForceQuery = False, RawQuery = [], Fragment = [],
          RawFragment = []\<rparr>"

definition exampleURL :: URL where
  "exampleURL =
     \<lparr>Scheme = ''http'', Opaque = [], User = None, URL_Host = ''example.com'', Path = [],
      RawPath = [], OmitHost = False, ForceQuery = False, RawQuery = [], Fragment = [],
      RawFragment = []\<rparr>"

text \<open>A client that answers every request with the same status code and body.\<close>

definition answering :: "64 word \<Rightarrow> bytes \<Rightarrow> Client" where
  "answering code body req = Inr \<lparr>StatusCode = code, ResponseBody = body\<rparr>"

text \<open>A test server that sends the body of the request back with status 201.\<close>

definition echo :: Client where
  "echo req = Inr \<lparr>StatusCode = 201, ResponseBody = Body req\<rparr>"

definition serviceWith :: "Client \<Rightarrow> state" where
  "serviceWith c = \<lparr>receiver = NewProductService ''http://example.com'' (Some c), calls = []\<rparr>"

text \<open>The marshaller of the test \<^verbatim>\<open>json marshal error\<close>: it always fails.\<close>

definition failingMarshal :: MarshalFunc where
  "failingMarshal v = Inl (errorString ''marshal error'')"

text \<open>The bytes \<^verbatim>\<open>json.Marshal\<close> returns, and the request \<^verbatim>\<open>AddProduct\<close> makes of a parsed URL.\<close>

definition marshalled :: "Product \<Rightarrow> bytes" where
  "marshalled p = (case json_Marshal p of Inr b \<Rightarrow> b | Inl _ \<Rightarrow> [])"

definition request_for :: "URL \<Rightarrow> Product \<Rightarrow> Request" where
  "request_for u p =
     \<lparr>Method = MethodPost, URL = u\<lparr>URL_Host := removeEmptyPort (URL_Host u)\<rparr>,
      Header = [(''Content-Type'', [''application/json''])], Body = marshalled p,
      ContentLength = int (length (marshalled p)), Host = removeEmptyPort (URL_Host u)\<rparr>"

section \<open>Stepping the reader\<close>

text \<open>
  The reader after one more byte, and after a stretch of bytes, as long as the scanner
  neither stops nor closes an object or array: \<open>readValue\<close> then goes on with the bytes
  that follow.
\<close>

definition ordinary :: "opcode \<Rightarrow> bool" where
  "ordinary op = (op \<noteq> scanEnd \<and> op \<noteq> scanEndObject \<and> op \<noteq> scanEndArray \<and> op \<noteq> scanError)"

definition advance :: "reader \<Rightarrow> char \<Rightarrow> reader" where
  "advance r c = (case scan_step (scan r) c of (op, s') \<Rightarrow> walk op c (r\<lparr>scan := s'\<rparr>))"

fun run :: "reader \<Rightarrow> bytes \<Rightarrow> reader option" where
  "run r [] = Some r"
| "run r (c # cs) =
     (if ordinary (fst (scan_step (scan r) c)) then run (advance r c) cs else None)"

text \<open>The reader inside the object of a Product: before the value of the key \<open>k\<close>, and after it.\<close>

definition awaiting :: "(bytes \<times> json) list \<Rightarrow> bytes \<Rightarrow> reader" where
  "awaiting ms k =
     \<lparr>scan = \<lparr>step = StateBeginValue, endTop = False, parseState = [parseObjectValue], err = None\<rparr>,
      lit = [], cur = None, frames = [ObjectFrame ms (Some k)]\<rparr>"

definition holding :: "(bytes \<times> json) list \<Rightarrow> bytes \<Rightarrow> bytes \<Rightarrow> stepFn \<Rightarrow> reader" where
  "holding ms k item st =
     \<lparr>scan = \<lparr>step = st, endTop = False, parseState = [parseObjectValue], err = None\<rparr>,
      lit = item, cur = None, frames = [ObjectFrame ms (Some k)]\<rparr>"

text \<open>The reader before a key of the object, and the bytes a string may hold as they are.\<close>

definition beforeKey :: "(bytes \<times> json) list \<Rightarrow> stepFn \<Rightarrow> reader" where
  "beforeKey ms st =
     \<lparr>scan = \<lparr>step = st, endTop = False, parseState = [parseObjectKey], err = None\<rparr>,
      lit = [], cur = None, frames = [ObjectFrame ms None]\<rparr>"

definition plain :: "char \<Rightarrow> bool" where
  "plain c = (c \<noteq> CHR ''\"'' \<and> c \<noteq> backslash \<and> 0x20 \<le> byte c)"

text \<open>The value \<^verbatim>\<open>json.Marshal\<close> writes for a Product, as the reader reads it.\<close>

definition marshalTree :: "Product \<Rightarrow> json" where
  "marshalTree p =
     Object [(''\"title\"'', Literal (appendString (Title p))),
             (''\"description\"'', Literal (appendString (Description p))),
             (''\"price\"'', Literal (FormatInt (sint (Price p)))),
             (''\"brand\"'', Literal (appendString (Brand p))),
             (''\"category\"'', Literal (appendString (Category p)))]"

section \<open>The fields of the result\<close>

text \<open>The field a key of the response stands for: the key is unquoted and looked up.\<close>

definition fieldOfKey :: "bytes \<Rightarrow> field option" where
  "fieldOfKey k = (case unquoteBytes k of None \<Rightarrow> None | Some key \<Rightarrow> lookupField key)"

text \<open>What a Product holds in a field.\<close>

fun fieldValue :: "field \<Rightarrow> Product \<Rightarrow> string + 64 word" where
  "fieldValue fieldTitle v = Inl (Title v)"
| "fieldValue fieldDescription v = Inl (Description v)"
| "fieldValue fieldPrice v = Inr (Price v)"
| "fieldValue fieldBrand v = Inl (Brand v)"
| "fieldValue fieldCategory v = Inl (Category v)"

section \<open>Rules for evaluating the model\<close>

lemmas scanner_defs = scan_step_def stateBeginValue_def stateBeginValueOrEmpty_def
  stateBeginString_def stateBeginStringOrEmpty_def stateEndValue_def stateEndTop_def
  stateInString_def stateInStringEsc_def stateInStringEscU_any_def stateNeg_def state0_def
  state1_def stateDot_def stateDot0_def stateE_def stateESign_def stateE0_def stateLetter_def
  scan_error_def pushParseState_def popParseState_def maxNestingDepth_def
  isSpace_def isDigit_def isDigit19_def isHex_def backslash_def

lemmas reader_defs = walk_def current_def attach_def closed_def newReader_def reset_def
  nonSpace_def

lemma unquote_loop_Nil: "unquote_loop [] = Some []"
  by (simp add: unquote_loop.simps)

lemma unquote_loop_Cons:
  "unquote_loop (c # rest) =
     (if c = backslash then
        (case rest of
           [] \<Rightarrow> None
         | e # rest' \<Rightarrow>
             if e = CHR ''\"'' \<or> e = backslash \<or> e = CHR ''/'' \<or> e = CHR 0x27
               then map_option ((#) e) (unquote_loop rest')
             else if e = CHR ''b'' then map_option ((#) (CHR 0x08)) (unquote_loop rest')
             else if e = CHR ''f'' then map_option ((#) (CHR 0x0C)) (unquote_loop rest')
             else if e = CHR ''n'' then map_option ((#) (CHR 0x0A)) (unquote_loop rest')
             else if e = CHR ''r'' then map_option ((#) (CHR 0x0D)) (unquote_loop rest')
             else if e = CHR ''t'' then map_option ((#) (CHR 0x09)) (unquote_loop rest')
             else if e = CHR ''u'' then
               (case getu4 (c # rest) of
                  None \<Rightarrow> None
                | Some rr \<Rightarrow>
                    if IsSurrogate rr then
                      (let dec = (case getu4 (drop 6 (c # rest)) of
                                    None \<Rightarrow> 0xFFFD
                                  | Some rr1 \<Rightarrow> utf16_DecodeRune rr rr1)
                       in if dec \<noteq> 0xFFFD
                          then map_option ((@) (EncodeRune dec)) (unquote_loop (drop 12 (c # rest)))
                          else map_option ((@) (EncodeRune 0xFFFD)) (unquote_loop (drop 6 (c # rest))))
                    else map_option ((@) (EncodeRune rr)) (unquote_loop (drop 6 (c # rest))))
             else None)
      else if c = CHR ''\"'' \<or> byte c < 0x20 then None
      else if byte c < 0x80 then map_option ((#) c) (unquote_loop rest)
      else map_option ((@) (EncodeRune (fst (DecodeRune (c # rest)))))
             (unquote_loop (drop (snd (DecodeRune (c # rest))) (c # rest))))"
  by (subst unquote_loop.simps) simp

lemma foldName_Nil: "foldName [] = []"
  by (simp add: foldName.simps)

lemma foldName_Cons:
  "foldName (c # rest) =
     (if byte c < 0x80 then
        (if byte CHR ''a'' \<le> byte c \<and> byte c \<le> byte CHR ''z''
         then char_of (byte c - 32) else c) # foldName rest
      else EncodeRune (foldRune (fst (DecodeRune (c # rest))))
             @ foldName (drop (snd (DecodeRune (c # rest))) (c # rest)))"
  by (subst foldName.simps) simp

lemmas store_defs = value_top_def object_def member_def value_field_def literalStore_def
  saveError_def lookupField_def byExactName_def byFoldedName_def typeFields_def unquoteBytes_def
  unquote_loop_Nil unquote_loop_Cons foldName_Nil foldName_Cons ParseInt_def ParseUint_def
  Product_zero_def char_of_eq_iff backslash_def isDigit_def hexValue_def getu4_def
  IsSurrogate_def utf16_DecodeRune_def

section \<open>The arithmetic of UTF-8\<close>

lemma lead_byte:
  fixes x base m :: nat
  assumes "base \<le> x" "x < base + m" "base mod m = 0"
  shows "x mod m = x - base" "x - base < m" "base + (x - base) = x"
proof -
  define k where "k = x - base"
  from assms have k: "x = base + k" "k < m" by (simp_all add: k_def)
  have "(base + k) mod m = (base mod m + k) mod m" by (rule mod_add_left_eq [symmetric])
  also have "\<dots> = k" using k(2) assms(3) by simp
  finally show "x mod m = x - base" "x - base < m" "base + (x - base) = x"
    using k by simp_all
qed

lemma pack2:
  fixes a b :: nat
  assumes "b < 64"
  shows "(a * 64 + b) div 64 = a" "(a * 64 + b) mod 64 = b"
  using assms by simp_all

lemma enc2:
  fixes x y c :: nat
  assumes "0xC2 \<le> x" "x \<le> 0xDF" "0x80 \<le> y" "y \<le> 0xBF" "c = (x mod 32) * 64 + y mod 64"
  shows "0x7F < c \<and> c \<le> 0x7FF \<and> 0xC0 + c div 64 = x \<and> 0x80 + c mod 64 = y"
proof -
  have l: "x mod 32 = x - 192" "x - 192 < 32" "192 + (x - 192) = x"
    using lead_byte [of 192 x 32] assms(1,2) by simp_all
  have k: "y mod 64 = y - 128" "y - 128 < 64" "128 + (y - 128) = y"
    using lead_byte [of 128 y 64] assms(3,4) by simp_all
  define a b where "a = x - 192" and "b = y - 128"
  have c: "c = a * 64 + b" using assms(5) l(1) k(1) by (simp add: a_def b_def)
  have bounds: "2 \<le> a" "a < 32" "b < 64" using l(2) k(2) assms(1) by (simp_all add: a_def b_def)
  have "0x7F < c" "c \<le> 0x7FF" using bounds unfolding c by simp_all
  moreover have "c div 64 = a" "c mod 64 = b"
    unfolding c using pack2 [OF bounds(3)] by simp_all
  ultimately show ?thesis using l(3) k(3) by (simp add: a_def b_def)
qed

lemma pack3:
  fixes a b d :: nat
  assumes "b < 64" "d < 64"
  shows "(a * 4096 + b * 64 + d) div 4096 = a" "((a * 4096 + b * 64 + d) div 64) mod 64 = b"
    "(a * 4096 + b * 64 + d) mod 64 = d"
proof -
  have eq: "a * 4096 + b * 64 + d = (a * 64 + b) * 64 + d" by simp
  from assms have "b * 64 + d < 4096" by simp
  then show "(a * 4096 + b * 64 + d) div 4096 = a" by simp
  have "(a * 4096 + b * 64 + d) div 64 = a * 64 + b"
    by (simp only: eq pack2(1) [OF assms(2)])
  then show "((a * 4096 + b * 64 + d) div 64) mod 64 = b"
    by (simp only: pack2(2) [OF assms(1)])
  show "(a * 4096 + b * 64 + d) mod 64 = d"
    by (simp only: eq pack2(2) [OF assms(2)])
qed

lemma pack4:
  fixes a b d e :: nat
  assumes "b < 64" "d < 64" "e < 64"
  shows "(a * 262144 + b * 4096 + d * 64 + e) div 262144 = a"
    "((a * 262144 + b * 4096 + d * 64 + e) div 4096) mod 64 = b"
    "((a * 262144 + b * 4096 + d * 64 + e) div 64) mod 64 = d"
    "(a * 262144 + b * 4096 + d * 64 + e) mod 64 = e"
proof -
  let ?c = "a * 262144 + b * 4096 + d * 64 + e"
  have eq1: "?c = (a * 4096 + b * 64 + d) * 64 + e" by simp
  have eq2: "?c = (a * 64 + b) * 4096 + (d * 64 + e)" by simp
  from assms have small: "d * 64 + e < 4096" "b * 4096 + d * 64 + e < 262144" by simp_all
  from small(2) show "?c div 262144 = a" by simp
  from small(1) have "((a * 64 + b) * 4096 + (d * 64 + e)) div 4096 = a * 64 + b" by simp
  then have "?c div 4096 = a * 64 + b" by (simp only: eq2)
  then show "(?c div 4096) mod 64 = b"
    by (simp only: pack2(2) [OF assms(1)])
  have "?c div 64 = a * 4096 + b * 64 + d"
    by (simp only: eq1 pack2(1) [OF assms(3)])
  then show "(?c div 64) mod 64 = d"
    by (simp only: pack3(3) [OF assms(1,2)])
  show "?c mod 64 = e"
    by (simp only: eq1 pack2(2) [OF assms(3)])
qed

lemma enc3:
  fixes x y z c :: nat
  assumes "0xE0 \<le> x" "x \<le> 0xEF" "0x80 \<le> y" "y \<le> 0xBF" "0x80 \<le> z" "z \<le> 0xBF"
    and "x = 0xE0 \<longrightarrow> 0xA0 \<le> y" and "x = 0xED \<longrightarrow> y \<le> 0x9F"
    and "c = (x mod 16) * 4096 + (y mod 64) * 64 + z mod 64"
  shows "0x7FF < c \<and> c \<le> 0xFFFF \<and> \<not> (0xD800 \<le> c \<and> c \<le> 0xDFFF)
       \<and> 0xE0 + c div 4096 = x \<and> 0x80 + (c div 64) mod 64 = y \<and> 0x80 + c mod 64 = z"
proof -
  have l: "x mod 16 = x - 224" "x - 224 < 16" "224 + (x - 224) = x"
    using lead_byte [of 224 x 16] assms(1,2) by simp_all
  have k: "y mod 64 = y - 128" "y - 128 < 64" "128 + (y - 128) = y"
    using lead_byte [of 128 y 64] assms(3,4) by simp_all
  have m: "z mod 64 = z - 128" "z - 128 < 64" "128 + (z - 128) = z"
    using lead_byte [of 128 z 64] assms(5,6) by simp_all
  define a b d where "a = x - 224" and "b = y - 128" and "d = z - 128"
  have c: "c = a * 4096 + b * 64 + d" using assms(9) l(1) k(1) m(1) by (simp add: a_def b_def d_def)
  have bounds: "a < 16" "b < 64" "d < 64" using l(2) k(2) m(2) by (simp_all add: a_def b_def d_def)
  have lo: "a = 0 \<longrightarrow> 32 \<le> b" using assms(1,3,7) by (auto simp: a_def b_def)
  have hi: "a = 13 \<longrightarrow> b < 32" using assms(1,3,8) by (auto simp: a_def b_def)
  have 1: "0x7FF < c"
  proof (cases "a = 0")
    case True
    with lo have "32 * 64 \<le> b * 64" by simp
    then show ?thesis unfolding c by simp
  next
    case False
    then have "1 * 4096 \<le> a * 4096" by simp
    then show ?thesis unfolding c by simp
  qed
  have "a * 4096 \<le> 15 * 4096" "b * 64 \<le> 63 * 64" using bounds by simp_all
  with bounds(3) have 2: "c \<le> 0xFFFF" unfolding c by simp
  have 3: "\<not> (0xD800 \<le> c \<and> c \<le> 0xDFFF)"
  proof (cases "a = 13")
    case True
    from hi True have "b * 64 \<le> 31 * 64" by simp
    with True bounds(3) show ?thesis unfolding c by simp
  next
    case False
    then consider "a \<le> 12" | "14 \<le> a" by arith
    then show ?thesis
    proof cases
      case 1
      then have "a * 4096 \<le> 12 * 4096" by simp
      moreover have "b * 64 \<le> 63 * 64" using bounds by simp
      ultimately show ?thesis using bounds(3) unfolding c by simp
    next
      case 2
      then have "14 * 4096 \<le> a * 4096" by simp
      then show ?thesis unfolding c by simp
    qed
  qed
  have 4: "c div 4096 = a" "(c div 64) mod 64 = b" "c mod 64 = d"
    unfolding c using pack3 [OF bounds(2,3)] by simp_all
  from 1 2 3 4 l(3) k(3) m(3) show ?thesis by (simp add: a_def b_def d_def)
qed

lemma enc4:
  fixes x y z w c :: nat
  assumes "0xF0 \<le> x" "x \<le> 0xF4" "0x80 \<le> y" "y \<le> 0xBF" "0x80 \<le> z" "z \<le> 0xBF"
    "0x80 \<le> w" "w \<le> 0xBF"
    and "x = 0xF0 \<longrightarrow> 0x90 \<le> y" and "x = 0xF4 \<longrightarrow> y \<le> 0x8F"
    and "c = (x mod 8) * 262144 + (y mod 64) * 4096 + (z mod 64) * 64 + w mod 64"
  shows "0xFFFF < c \<and> c \<le> 0x10FFFF
       \<and> 0xF0 + c div 262144 = x \<and> 0x80 + (c div 4096) mod 64 = y
       \<and> 0x80 + (c div 64) mod 64 = z \<and> 0x80 + c mod 64 = w"
proof -
  have l: "x mod 8 = x - 240" "x - 240 < 8" "240 + (x - 240) = x"
    using lead_byte [of 240 x 8] assms(1,2) by simp_all
  have k: "y mod 64 = y - 128" "y - 128 < 64" "128 + (y - 128) = y"
    using lead_byte [of 128 y 64] assms(3,4) by simp_all
  have m: "z mod 64 = z - 128" "z - 128 < 64" "128 + (z - 128) = z"
    using lead_byte [of 128 z 64] assms(5,6) by simp_all
  have n: "w mod 64 = w - 128" "w - 128 < 64" "128 + (w - 128) = w"
    using lead_byte [of 128 w 64] assms(7,8) by simp_all
  define a b d e where "a = x - 240" and "b = y - 128" and "d = z - 128" and "e = w - 128"
  have c: "c = a * 262144 + b * 4096 + d * 64 + e"
    using assms(11) l(1) k(1) m(1) n(1) by (simp add: a_def b_def d_def e_def)
  have bounds: "a \<le> 4" "b < 64" "d < 64" "e < 64"
    using assms(2) k(2) m(2) n(2) by (simp_all add: a_def b_def d_def e_def)
  have lo: "a = 0 \<longrightarrow> 16 \<le> b" using assms(1,3,9) by (auto simp: a_def b_def)
  have hi: "a = 4 \<longrightarrow> b < 16" using assms(1,3,10) by (auto simp: a_def b_def)
  have 1: "0xFFFF < c"
  proof (cases "a = 0")
    case True
    with lo have "16 * 4096 \<le> b * 4096" by simp
    then show ?thesis unfolding c by simp
  next
    case False
    then have "1 * 262144 \<le> a * 262144" by simp
    then show ?thesis unfolding c by simp
  qed
  have de: "d * 64 \<le> 63 * 64" using bounds by simp
  have 2: "c \<le> 0x10FFFF"
  proof (cases "a = 4")
    case True
    from hi True have "b * 4096 \<le> 15 * 4096" by simp
    with True de bounds(4) show ?thesis unfolding c by simp
  next
    case False
    with bounds have "a * 262144 \<le> 3 * 262144" by simp
    moreover have "b * 4096 \<le> 63 * 4096" using bounds by simp
    ultimately show ?thesis using de bounds(4) unfolding c by simp
  qed
  have 4: "c div 262144 = a" "(c div 4096) mod 64 = b" "(c div 64) mod 64 = d" "c mod 64 = e"
    unfolding c using pack4 [OF bounds(2,3,4)] by simp_all
  from 1 2 4 l(3) k(3) m(3) n(3) show ?thesis by (simp add: a_def b_def d_def e_def)
qed


lemma first_range:
  assumes "first x = Some (sz, lo, hi)"
  shows "(sz = 2 \<and> 0xC2 \<le> x \<and> x \<le> 0xDF \<and> lo = 0x80 \<and> hi = 0xBF)
       \<or> (sz = 3 \<and> 0xE0 \<le> x \<and> x \<le> 0xEF \<and> 0x80 \<le> lo \<and> hi \<le> 0xBF
             \<and> (x = 0xE0 \<longrightarrow> lo = 0xA0) \<and> (x = 0xED \<longrightarrow> hi = 0x9F))
       \<or> (sz = 4 \<and> 0xF0 \<le> x \<and> x \<le> 0xF4 \<and> 0x80 \<le> lo \<and> hi \<le> 0xBF
             \<and> (x = 0xF0 \<longrightarrow> lo = 0x90) \<and> (x = 0xF4 \<longrightarrow> hi = 0x8F))"
  using assms by (auto simp: first_def split: if_splits)

lemma first_not_ascii: "first x = Some t \<Longrightarrow> \<not> x < 0x80"
  by (auto simp: first_def split: if_splits)

lemma DecodeRune_short:
  assumes "first (byte b) = Some (sz, lo, hi)" and "length (b # rest) < sz"
  shows "DecodeRune (b # rest) = (RuneError, 1)"
  using assms first_range [OF assms(1)] by (auto simp: DecodeRune_def)

lemma DecodeRune_2:
  assumes "first (byte b) = Some (2, lo, hi)"
  shows "DecodeRune (b # b1 # r) =
     (if byte b1 < lo \<or> hi < byte b1 then (RuneError, 1)
      else ((byte b mod 32) * 64 + byte b1 mod 64, 2))"
  using assms first_not_ascii [OF assms] by (simp add: DecodeRune_def Let_def)

lemma DecodeRune_3:
  assumes "first (byte b) = Some (3, lo, hi)"
  shows "DecodeRune (b # b1 # b2 # r) =
     (if byte b1 < lo \<or> hi < byte b1 \<or> byte b2 < 0x80 \<or> 0xBF < byte b2 then (RuneError, 1)
      else ((byte b mod 16) * 4096 + (byte b1 mod 64) * 64 + byte b2 mod 64, 3))"
  using assms first_not_ascii [OF assms] by (simp add: DecodeRune_def Let_def)

lemma DecodeRune_4:
  assumes "first (byte b) = Some (4, lo, hi)"
  shows "DecodeRune (b # b1 # b2 # b3 # r) =
     (if byte b1 < lo \<or> hi < byte b1 \<or> byte b2 < 0x80 \<or> 0xBF < byte b2
         \<or> byte b3 < 0x80 \<or> 0xBF < byte b3 then (RuneError, 1)
      else ((byte b mod 8) * 262144 + (byte b1 mod 64) * 4096 + (byte b2 mod 64) * 64
              + byte b3 mod 64, 4))"
  using assms first_not_ascii [OF assms] by (simp add: DecodeRune_def Let_def)

lemma char_of_byte: "byte b = n \<Longrightarrow> char_of n = b"
  by auto

text \<open>
  A sequence that decodes to a rune is the encoding of the rune, and decodes the same way
  whatever follows it.
\<close>

lemma DecodeRune_valid:
  assumes "\<not> byte b < 0x80" and "DecodeRune (b # rest) = (c, n)" and "\<not> (c = RuneError \<and> n = 1)"
  shows "EncodeRune c = take n (b # rest) \<and> (\<forall>ys. DecodeRune (take n (b # rest) @ ys) = (c, n))"
proof (cases "first (byte b)")
  case None
  with assms show ?thesis by (simp add: DecodeRune_def)
next
  case (Some t)
  obtain sz lo hi where f: "first (byte b) = Some (sz, lo, hi)" using Some by (cases t) auto
  have long: "sz \<le> length (b # rest)"
    using DecodeRune_short [OF f, of rest] assms(2,3) by (cases "length (b # rest) < sz") auto
  from first_range [OF f] consider
      (two) "sz = 2" "0xC2 \<le> byte b" "byte b \<le> 0xDF" "lo = 0x80" "hi = 0xBF"
    | (three) "sz = 3" "0xE0 \<le> byte b" "byte b \<le> 0xEF" "0x80 \<le> lo" "hi \<le> 0xBF"
        "byte b = 0xE0 \<longrightarrow> lo = 0xA0" "byte b = 0xED \<longrightarrow> hi = 0x9F"
    | (four) "sz = 4" "0xF0 \<le> byte b" "byte b \<le> 0xF4" "0x80 \<le> lo" "hi \<le> 0xBF"
        "byte b = 0xF0 \<longrightarrow> lo = 0x90" "byte b = 0xF4 \<longrightarrow> hi = 0x8F"
    by blast
  then show ?thesis
  proof cases
    case two
    from long two(1) obtain b1 r where rest: "rest = b1 # r" by (cases rest) auto
    note d = DecodeRune_2 [OF f [unfolded two(1)]]
    from assms(2,3) have ok: "\<not> (byte b1 < lo \<or> hi < byte b1)"
      and c: "c = (byte b mod 32) * 64 + byte b1 mod 64" and n: "n = 2"
      unfolding rest d by (auto split: if_splits)
    from ok two have r1: "0x80 \<le> byte b1" "byte b1 \<le> 0xBF" by simp_all
    from enc2 [OF two(2,3) r1 c]
    have e: "0x7F < c" "c \<le> 0x7FF" "0xC0 + c div 64 = byte b" "0x80 + c mod 64 = byte b1"
      by simp_all
    from e have "EncodeRune c = [b, b1]"
      by (simp add: EncodeRune_def char_of_byte)
    moreover have "DecodeRune ([b, b1] @ ys) = (c, n)" for ys
      using d [of b1 ys] ok c n by simp
    ultimately show ?thesis by (simp add: rest n)
  next
    case three
    from long three(1) obtain b1 b2 r where rest: "rest = b1 # b2 # r"
      by (cases rest; cases "tl rest") auto
    note d = DecodeRune_3 [OF f [unfolded three(1)]]
    from assms(2,3) have ok: "\<not> (byte b1 < lo \<or> hi < byte b1 \<or> byte b2 < 0x80 \<or> 0xBF < byte b2)"
      and c: "c = (byte b mod 16) * 4096 + (byte b1 mod 64) * 64 + byte b2 mod 64" and n: "n = 3"
      unfolding rest d by (auto split: if_splits)
    from ok three have r1: "0x80 \<le> byte b1" "byte b1 \<le> 0xBF" "0x80 \<le> byte b2" "byte b2 \<le> 0xBF"
      "byte b = 0xE0 \<longrightarrow> 0xA0 \<le> byte b1" "byte b = 0xED \<longrightarrow> byte b1 \<le> 0x9F"
      by auto
    from enc3 [OF three(2,3) r1 c]
    have e: "0x7FF < c" "c \<le> 0xFFFF" "\<not> (0xD800 \<le> c \<and> c \<le> 0xDFFF)"
      "0xE0 + c div 4096 = byte b" "0x80 + (c div 64) mod 64 = byte b1" "0x80 + c mod 64 = byte b2"
      by simp_all
    from e have "EncodeRune c = [b, b1, b2]"
      by (auto simp: EncodeRune_def enc3_def char_of_byte)
    moreover have "DecodeRune ([b, b1, b2] @ ys) = (c, n)" for ys
      using d [of b1 b2 ys] ok c n by simp
    ultimately show ?thesis by (simp add: rest n)
  next
    case four
    from long four(1) obtain b1 b2 b3 r where rest: "rest = b1 # b2 # b3 # r"
      by (cases rest; cases "tl rest"; cases "tl (tl rest)") auto
    note d = DecodeRune_4 [OF f [unfolded four(1)]]
    from assms(2,3)
    have ok: "\<not> (byte b1 < lo \<or> hi < byte b1 \<or> byte b2 < 0x80 \<or> 0xBF < byte b2
                 \<or> byte b3 < 0x80 \<or> 0xBF < byte b3)"
      and c: "c = (byte b mod 8) * 262144 + (byte b1 mod 64) * 4096 + (byte b2 mod 64) * 64
                    + byte b3 mod 64"
      and n: "n = 4"
      unfolding rest d by (auto split: if_splits)
    from ok four have r1: "0x80 \<le> byte b1" "byte b1 \<le> 0xBF" "0x80 \<le> byte b2" "byte b2 \<le> 0xBF"
      "0x80 \<le> byte b3" "byte b3 \<le> 0xBF"
      "byte b = 0xF0 \<longrightarrow> 0x90 \<le> byte b1" "byte b = 0xF4 \<longrightarrow> byte b1 \<le> 0x8F"
      by auto
    from enc4 [OF four(2,3) r1 c]
    have e: "0xFFFF < c" "c \<le> 0x10FFFF" "0xF0 + c div 262144 = byte b"
      "0x80 + (c div 4096) mod 64 = byte b1" "0x80 + (c div 64) mod 64 = byte b2"
      "0x80 + c mod 64 = byte b3"
      by simp_all
    from e have "EncodeRune c = [b, b1, b2, b3]"
      by (simp add: EncodeRune_def char_of_byte)
    moreover have "DecodeRune ([b, b1, b2, b3] @ ys) = (c, n)" for ys
      using d [of b1 b2 b3 ys] ok c n by simp
    ultimately show ?thesis by (simp add: rest n)
  qed
qed


section \<open>The scanner on the bytes of Marshal\<close>

lemma readValue_run:
  "run r xs = Some r' \<Longrightarrow> readValue r (xs @ ys) ns = readValue r' ys ns"
proof (induction xs arbitrary: r)
  case Nil
  then show ?case by simp
next
  case (Cons c cs)
  from Cons.prems have ord: "ordinary (fst (scan_step (scan r) c))"
    and rest: "run (advance r c) cs = Some r'"
    by (auto split: if_splits)
  obtain op s' where st: "scan_step (scan r) c = (op, s')" by (cases "scan_step (scan r) c")
  from ord st have "readValue r ((c # cs) @ ys) ns = readValue (advance r c) (cs @ ys) ns"
    by (simp add: ordinary_def advance_def)
  with Cons.IH [OF rest] show ?case by simp
qed

lemma run_append:
  "run r xs = Some r' \<Longrightarrow> run r (xs @ ys) = run r' ys"
  by (induction xs arbitrary: r) (auto split: if_splits)

lemma step_same: "step s = v \<Longrightarrow> s\<lparr>step := v\<rparr> = s"
  by (cases s) simp

text \<open>Inside a string, a byte that is neither a quote, a backslash nor a control byte is read on.\<close>

lemma run_plain:
  assumes "step (scan r) = StateInString"
    and "\<forall>c \<in> set xs. c \<noteq> CHR ''\"'' \<and> c \<noteq> backslash \<and> 0x20 \<le> byte c"
  shows "run r xs = Some (r\<lparr>lit := lit r @ xs\<rparr>)"
  using assms
proof (induction xs arbitrary: r)
  case Nil
  then show ?case by simp
next
  case (Cons c cs)
  from Cons.prems have c: "c \<noteq> CHR ''\"''" "c \<noteq> backslash" "\<not> byte c < 0x20"
    by auto
  with Cons.prems(1) have st: "scan_step (scan r) c = (scanContinue, scan r)"
    by (simp add: scan_step_def stateInString_def)
  then have adv: "advance r c = r\<lparr>lit := lit r @ [c]\<rparr>"
    by (simp add: advance_def walk_def)
  from Cons.prems have "run (r\<lparr>lit := lit r @ [c]\<rparr>) cs = Some (r\<lparr>lit := lit r @ [c]\<rparr>\<lparr>lit := lit (r\<lparr>lit := lit r @ [c]\<rparr>) @ cs\<rparr>)"
    by (intro Cons.IH) auto
  with st adv show ?case by (simp add: ordinary_def)
qed

lemma run_escape2:
  assumes "step (scan r) = StateInString"
    and "e = CHR ''b'' \<or> e = CHR ''f'' \<or> e = CHR ''n'' \<or> e = CHR ''r'' \<or> e = CHR ''t''
         \<or> e = backslash \<or> e = CHR ''/'' \<or> e = CHR ''\"''"
  shows "run r [backslash, e] = Some (r\<lparr>lit := lit r @ [backslash, e]\<rparr>)"
proof -
  from assms(1) have 1: "scan_step (scan r) backslash = (scanContinue, (scan r)\<lparr>step := StateInStringEsc\<rparr>)"
    by (simp add: scan_step_def stateInString_def backslash_def)
  from assms(2) have 2: "scan_step ((scan r)\<lparr>step := StateInStringEsc\<rparr>) e
      = (scanContinue, (scan r)\<lparr>step := StateInString\<rparr>)"
    by (simp add: scan_step_def stateInStringEsc_def)
  from assms(1) have 3: "(scan r)\<lparr>step := StateInString\<rparr> = scan r"
    by (rule step_same)
  show ?thesis
    by (simp add: 1 2 3 ordinary_def advance_def walk_def)
qed

lemma run_escapeU:
  assumes "step (scan r) = StateInString" and "isHex h1" "isHex h2" "isHex h3" "isHex h4"
  shows "run r [backslash, CHR ''u'', h1, h2, h3, h4]
           = Some (r\<lparr>lit := lit r @ [backslash, CHR ''u'', h1, h2, h3, h4]\<rparr>)"
proof -
  from assms(1) have 1: "scan_step (scan r) backslash = (scanContinue, (scan r)\<lparr>step := StateInStringEsc\<rparr>)"
    by (simp add: scan_step_def stateInString_def backslash_def)
  have 2: "scan_step ((scan r)\<lparr>step := StateInStringEsc\<rparr>) CHR ''u''
      = (scanContinue, (scan r)\<lparr>step := StateInStringEscU\<rparr>)"
    by (simp add: scan_step_def stateInStringEsc_def backslash_def)
  from assms(2) have 3: "scan_step ((scan r)\<lparr>step := StateInStringEscU\<rparr>) h1
      = (scanContinue, (scan r)\<lparr>step := StateInStringEscU1\<rparr>)"
    by (simp add: scan_step_def stateInStringEscU_any_def)
  from assms(3) have 4: "scan_step ((scan r)\<lparr>step := StateInStringEscU1\<rparr>) h2
      = (scanContinue, (scan r)\<lparr>step := StateInStringEscU12\<rparr>)"
    by (simp add: scan_step_def stateInStringEscU_any_def)
  from assms(4) have 5: "scan_step ((scan r)\<lparr>step := StateInStringEscU12\<rparr>) h3
      = (scanContinue, (scan r)\<lparr>step := StateInStringEscU123\<rparr>)"
    by (simp add: scan_step_def stateInStringEscU_any_def)
  from assms(5) have 6: "scan_step ((scan r)\<lparr>step := StateInStringEscU123\<rparr>) h4
      = (scanContinue, (scan r)\<lparr>step := StateInString\<rparr>)"
    by (simp add: scan_step_def stateInStringEscU_any_def)
  from assms(1) have 7: "(scan r)\<lparr>step := StateInString\<rparr> = scan r"
    by (rule step_same)
  show ?thesis
    by (simp add: 1 2 3 4 5 6 7 ordinary_def advance_def walk_def)
qed

lemma all_below: "list_all Q [0..<k] \<Longrightarrow> n < k \<Longrightarrow> Q n"
  by (simp add: list_all_iff)

lemma isHex_hex: "n < 16 \<Longrightarrow> isHex (hex ! n)"
  by (rule all_below [where k = 16]) (simp_all add: upt_rec hex_def isHex_def isDigit_def)

lemma isHex_digits: "isHex CHR ''0''" "isHex CHR ''2''" "isHex CHR ''f''" "isHex CHR ''d''"
  by (simp_all add: isHex_def isDigit_def)

lemma run_escapeByte:
  assumes "step (scan r) = StateInString"
  shows "run r (escapeByte b) = Some (r\<lparr>lit := lit r @ escapeByte b\<rparr>)"
proof -
  have "byte b div 16 < 16" "byte b mod 16 < 16"
    using nat_of_char_less_256 [of b] by arith+
  then have "isHex (hex ! (byte b div 16))" "isHex (hex ! (byte b mod 16))"
    by (simp_all add: isHex_hex)
  then show ?thesis
    using run_escape2 [OF assms] run_escapeU [OF assms isHex_digits(1) isHex_digits(1)]
    by (simp add: escapeByte_def)
qed

lemma first_lo: "first b = Some (sz, lo, hi) \<Longrightarrow> 0x80 \<le> lo"
  by (auto simp: first_def split: if_splits)

text \<open>A sequence that decodes to a rune lies within the bytes, and none of its bytes is ASCII.\<close>

lemma DecodeRune_bytes:
  assumes "\<not> byte b < 0x80" and "DecodeRune (b # rest) = (c, n)" and "\<not> (c = RuneError \<and> n = 1)"
  shows "n \<le> length (b # rest) \<and> (\<forall>x \<in> set (take n (b # rest)). 0x80 \<le> byte x)"
proof (cases "first (byte b)")
  case None
  with assms show ?thesis by (simp add: DecodeRune_def)
next
  case (Some t)
  obtain sz lo hi where t: "t = (sz, lo, hi)" by (cases t)
  note f = Some [unfolded t]
  from first_size [OF f] first_lo [OF f] assms f
  have len: "n \<le> length (b # rest)" and n: "n = sz"
    and b1: "0x80 \<le> byte ((b # rest) ! 1)"
    and b2: "2 < n \<longrightarrow> 0x80 \<le> byte ((b # rest) ! 2)"
    and b3: "3 < n \<longrightarrow> 0x80 \<le> byte ((b # rest) ! 3)"
    by (auto simp: DecodeRune_def Let_def Suc_le_eq split: if_splits)
  have "0x80 \<le> byte x" if "x \<in> set (take n (b # rest))" for x
  proof -
    from that obtain i where i: "i < n" "i < length (b # rest)" "x = (b # rest) ! i"
      by (auto simp: in_set_conv_nth)
    from first_size [OF f] n i(1) have "i = 0 \<or> i = 1 \<or> i = 2 \<and> 2 < n \<or> i = 3 \<and> 3 < n"
      by auto
    with i(3) assms(1) b1 b2 b3 show ?thesis by auto
  qed
  with len show ?thesis by blast
qed

lemma appendString_loop_Cons:
  "appendString_loop (b # rest) =
     (if byte b < 0x80 then
        (if htmlSafeSet b then [b] else escapeByte b) @ appendString_loop rest
      else
        let c = fst (DecodeRune (b # rest)); size = snd (DecodeRune (b # rest)) in
        if c = RuneError \<and> size = 1 then
          (backslash # ''ufffd'') @ appendString_loop (drop size (b # rest))
        else if c = 0x2028 \<or> c = 0x2029 then
          (backslash # ''u202'') @ [hex ! (c mod 16)] @ appendString_loop (drop size (b # rest))
        else take size (b # rest) @ appendString_loop (drop size (b # rest)))"
  by (subst appendString_loop.simps) simp

lemma appendString_loop_Nil: "appendString_loop [] = []"
  by (simp add: appendString_loop.simps)

lemma run_appendString_loop:
  assumes "step (scan r) = StateInString"
  shows "run r (appendString_loop s) = Some (r\<lparr>lit := lit r @ appendString_loop s\<rparr>)"
  using assms
proof (induction "length s" arbitrary: s r rule: less_induct)
  case less
  show ?case
  proof (cases s)
    case Nil
    then show ?thesis by (simp add: appendString_loop_Nil)
  next
    case (Cons b rest)
    have step: "run r (xs @ appendString_loop t) = Some (r\<lparr>lit := lit r @ xs @ appendString_loop t\<rparr>)"
      if "run r xs = Some (r\<lparr>lit := lit r @ xs\<rparr>)" and "length t < length s" for xs t
    proof -
      have "run (r\<lparr>lit := lit r @ xs\<rparr>) (appendString_loop t)
              = Some (r\<lparr>lit := lit r @ xs\<rparr>\<lparr>lit := lit (r\<lparr>lit := lit r @ xs\<rparr>) @ appendString_loop t\<rparr>)"
        using less.prems that(2) by (intro less.hyps) simp_all
      with run_append [OF that(1)] show ?thesis by simp
    qed
    show ?thesis
    proof (cases "byte b < 0x80")
      case True
      show ?thesis
      proof (cases "htmlSafeSet b")
        case safe: True
        then have "run r [b] = Some (r\<lparr>lit := lit r @ [b]\<rparr>)"
          using run_plain [OF less.prems, of "[b]"] by (simp add: htmlSafeSet_def)
        from step [OF this, of rest] Cons True safe show ?thesis
          by (auto simp add: appendString_loop_Cons RuneError_def simp del: run.simps)
      next
        case False
        from step [OF run_escapeByte [OF less.prems, of b], of rest] Cons True False show ?thesis
          by (auto simp add: appendString_loop_Cons RuneError_def simp del: run.simps)
      qed
    next
      case False
      obtain c n where d: "DecodeRune (b # rest) = (c, n)" by (cases "DecodeRune (b # rest)")
      from DecodeRune_size [of "b # rest"] d have n: "1 \<le> n" by simp
      then have shorter: "length (drop n (b # rest)) < length s" using Cons by simp
      show ?thesis
      proof (cases "c = RuneError \<and> n = 1")
        case True
        have "run r (backslash # ''ufffd'') = Some (r\<lparr>lit := lit r @ backslash # ''ufffd''\<rparr>)"
          using run_escapeU [OF less.prems, of "CHR ''f''" "CHR ''f''" "CHR ''f''" "CHR ''d''"]
          by (simp add: isHex_def isDigit_def del: run.simps)
        from step [OF this shorter] Cons False d True show ?thesis
          by (auto simp add: appendString_loop_Cons RuneError_def simp del: run.simps)
      next
        case valid: False
        show ?thesis
        proof (cases "c = 0x2028 \<or> c = 0x2029")
          case True
          then have "hex ! (c mod 16) = CHR ''8'' \<or> hex ! (c mod 16) = CHR ''9''"
            by (auto simp: hex_def)
          then have "run r (backslash # ''u202'' @ [hex ! (c mod 16)])
                = Some (r\<lparr>lit := lit r @ backslash # ''u202'' @ [hex ! (c mod 16)]\<rparr>)"
            using run_escapeU [OF less.prems, of "CHR ''2''" "CHR ''0''" "CHR ''2''" "hex ! (c mod 16)"]
            by (auto simp: isHex_def isDigit_def simp del: run.simps)
          from step [OF this shorter] Cons False d valid True show ?thesis
            by (auto simp add: appendString_loop_Cons RuneError_def simp del: run.simps)
        next
          case other: False
          from DecodeRune_bytes [OF False d valid]
          have "\<forall>x \<in> set (take n (b # rest)). x \<noteq> CHR ''\"'' \<and> x \<noteq> backslash \<and> 0x20 \<le> byte x"
            by (fastforce simp: backslash_def)
          from step [OF run_plain [OF less.prems this] shorter] Cons False d valid other
          show ?thesis
            by (auto simp add: appendString_loop_Cons RuneError_def simp del: run.simps)
        qed
      qed
    qed
  qed
qed

subsection \<open>Numbers\<close>

lemma byte_digit: "n < 10 \<Longrightarrow> byte (digit n) = 48 + n"
  by (rule all_below [where k = 10]) (simp_all add: upt_rec digit_def)

lemma isDigit_digit: "n < 10 \<Longrightarrow> isDigit (digit n)"
  by (simp add: isDigit_def byte_digit)

lemma isDigit19_digit: "n < 10 \<Longrightarrow> 0 < n \<Longrightarrow> isDigit19 (digit n)"
  by (simp add: isDigit19_def byte_digit)

lemma formatBits_shape:
  "\<exists>d ds. formatBits n = d # ds \<and> list_all isDigit ds
      \<and> (if n = 0 then d = CHR ''0'' \<and> ds = [] else isDigit19 d)"
proof (induction n rule: formatBits.induct)
  case (1 n)
  show ?case
  proof (cases "n < 10")
    case True
    then show ?thesis
      by (subst formatBits.simps) (auto simp: isDigit19_digit, simp add: digit_def)
  next
    case False
    with 1 obtain d ds where d: "formatBits (n div 10) = d # ds" "list_all isDigit ds" "isDigit19 d"
      by (auto split: if_splits)
    have "isDigit (digit (n mod 10))" by (simp add: isDigit_digit)
    with d False show ?thesis
      by (subst formatBits.simps) auto
  qed
qed

lemma run_digits:
  assumes "step (scan r) = State1" and "list_all isDigit ds"
  shows "run r ds = Some (r\<lparr>lit := lit r @ ds\<rparr>)"
  using assms
proof (induction ds arbitrary: r)
  case Nil
  then show ?case by simp
next
  case (Cons c cs)
  from Cons.prems have "scan_step (scan r) c = (scanContinue, (scan r)\<lparr>step := State1\<rparr>)"
    by (simp add: scan_step_def state1_def)
  with step_same [OF Cons.prems(1)] have st: "scan_step (scan r) c = (scanContinue, scan r)"
    by simp
  then have adv: "advance r c = r\<lparr>lit := lit r @ [c]\<rparr>"
    by (simp add: advance_def walk_def)
  from Cons.prems
  have "run (r\<lparr>lit := lit r @ [c]\<rparr>) cs
          = Some (r\<lparr>lit := lit r @ [c]\<rparr>\<lparr>lit := lit (r\<lparr>lit := lit r @ [c]\<rparr>) @ cs\<rparr>)"
    by (intro Cons.IH) auto
  with st adv show ?case by (simp add: ordinary_def)
qed

lemma isDigit19_not_special:
  assumes "isDigit19 d"
  shows "\<not> isSpace d" "d \<noteq> CHR ''{''" "d \<noteq> CHR ''[''" "d \<noteq> CHR ''\"''" "d \<noteq> CHR ''-''"
    "d \<noteq> CHR ''0''" "d \<noteq> CHR ''t''" "d \<noteq> CHR ''f''" "d \<noteq> CHR ''n''"
  using assms by (auto simp: isDigit19_def isSpace_def)

text \<open>Where a value may begin, the scanner reads a decimal number to its last digit.\<close>

lemma run_FormatInt:
  assumes "step (scan r) = StateBeginValue"
  shows "\<exists>st. (st = State0 \<or> st = State1)
           \<and> run r (FormatInt i) = Some (r\<lparr>scan := (scan r)\<lparr>step := st\<rparr>, lit := FormatInt i, cur := None\<rparr>)"
proof -
  define n where "n = (if i < 0 then nat (- i) else nat i)"
  obtain d ds where shape: "formatBits n = d # ds" "list_all isDigit ds"
    "if n = 0 then d = CHR ''0'' \<and> ds = [] else isDigit19 d"
    using formatBits_shape [of n] by blast
  show ?thesis
  proof (cases "i < 0")
    case True
    then have pos: "n \<noteq> 0" by (simp add: n_def)
    with shape have d: "isDigit19 d" by simp
    let ?r1 = "r\<lparr>scan := (scan r)\<lparr>step := StateNeg\<rparr>, lit := [CHR ''-''], cur := None\<rparr>"
    let ?r2 = "r\<lparr>scan := (scan r)\<lparr>step := State1\<rparr>, lit := [CHR ''-'', d], cur := None\<rparr>"
    from assms have 1: "run r [CHR ''-''] = Some ?r1"
      by (simp add: scan_step_def stateBeginValue_def isSpace_def ordinary_def advance_def walk_def)
    from d isDigit19_not_special [OF d] have 2: "run ?r1 [d] = Some ?r2"
      by (simp add: scan_step_def stateNeg_def ordinary_def advance_def walk_def)
    have 3: "run ?r2 ds = Some (?r2\<lparr>lit := lit ?r2 @ ds\<rparr>)"
      using shape(2) by (intro run_digits) simp_all
    have "run r ([CHR ''-''] @ [d] @ ds) = Some (?r2\<lparr>lit := lit ?r2 @ ds\<rparr>)"
      by (simp only: run_append [OF 1] run_append [OF 2] 3)
    with True shape(1) show ?thesis
      by (auto simp: FormatInt_def n_def)
  next
    case False
    show ?thesis
    proof (cases "n = 0")
      case True
      with shape have "formatBits n = ''0''" by simp
      moreover from assms
      have "run r ''0'' = Some (r\<lparr>scan := (scan r)\<lparr>step := State0\<rparr>, lit := ''0'', cur := None\<rparr>)"
        by (simp add: scan_step_def stateBeginValue_def isSpace_def ordinary_def advance_def walk_def)
      ultimately show ?thesis using False by (auto simp: FormatInt_def n_def)
    next
      case pos: False
      with shape have d: "isDigit19 d" by simp
      let ?r2 = "r\<lparr>scan := (scan r)\<lparr>step := State1\<rparr>, lit := [d], cur := None\<rparr>"
      from assms d isDigit19_not_special [OF d] have 2: "run r [d] = Some ?r2"
        by (simp add: scan_step_def stateBeginValue_def ordinary_def advance_def walk_def)
      have 3: "run ?r2 ds = Some (?r2\<lparr>lit := lit ?r2 @ ds\<rparr>)"
        using shape(2) by (intro run_digits) simp_all
      have "run r ([d] @ ds) = Some (?r2\<lparr>lit := lit ?r2 @ ds\<rparr>)"
        by (simp only: run_append [OF 2] 3)
      with False shape(1) show ?thesis
        by (auto simp: FormatInt_def n_def)
    qed
  qed
qed

text \<open>Where a value may begin, the scanner reads a quoted string to its closing quote.\<close>

lemma run_appendString:
  assumes "step (scan r) = StateBeginValue \<or> step (scan r) = StateBeginString"
  shows "run r (appendString t)
           = Some (r\<lparr>scan := (scan r)\<lparr>step := StateEndValue\<rparr>, lit := appendString t, cur := None\<rparr>)"
proof -
  let ?r1 = "r\<lparr>scan := (scan r)\<lparr>step := StateInString\<rparr>, lit := [CHR ''\"''], cur := None\<rparr>"
  let ?r2 = "?r1\<lparr>lit := lit ?r1 @ appendString_loop t\<rparr>"
  from assms have 1: "run r [CHR ''\"''] = Some ?r1"
    by (auto simp: scan_step_def stateBeginValue_def stateBeginString_def isSpace_def ordinary_def
          advance_def walk_def)
  have 2: "run ?r1 (appendString_loop t) = Some ?r2"
    by (rule run_appendString_loop) simp
  have 3: "run ?r2 [CHR ''\"'']
             = Some (r\<lparr>scan := (scan r)\<lparr>step := StateEndValue\<rparr>, lit := appendString t, cur := None\<rparr>)"
    by (simp add: scan_step_def stateInString_def ordinary_def advance_def walk_def appendString_def)
  have "run r ([CHR ''\"''] @ appendString_loop t @ [CHR ''\"''])
          = Some (r\<lparr>scan := (scan r)\<lparr>step := StateEndValue\<rparr>, lit := appendString t, cur := None\<rparr>)"
    by (simp only: run_append [OF 1] run_append [OF 2] 3)
  then show ?thesis by (simp add: appendString_def)
qed


subsection \<open>The object of a Product\<close>

lemmas run_defs = ordinary_def advance_def

lemma run_key:
  assumes "st = StateBeginString \<or> st = StateBeginStringOrEmpty" and "list_all plain name"
  shows "run (beforeKey ms st) (CHR ''\"'' # name @ ''\":'')
           = Some (awaiting ms (CHR ''\"'' # name @ ''\"''))"
proof -
  let ?s = "\<lparr>step = StateInString, endTop = False, parseState = [parseObjectKey], err = None\<rparr>"
  let ?r1 = "\<lparr>scan = ?s, lit = ''\"'', cur = None, frames = [ObjectFrame ms None]\<rparr>"
  let ?r2 = "?r1\<lparr>lit := lit ?r1 @ name\<rparr>"
  let ?r3 = "\<lparr>scan = ?s\<lparr>step := StateEndValue\<rparr>, lit = CHR ''\"'' # name @ ''\"'',
             cur = None, frames = [ObjectFrame ms None]\<rparr>"
  from assms(1) have 1: "run (beforeKey ms st) ''\"'' = Some ?r1"
    by (auto simp: beforeKey_def run_defs scan_step_def stateBeginString_def
          stateBeginStringOrEmpty_def isSpace_def walk_def)
  from assms(2) have 2: "run ?r1 name = Some ?r2"
    by (intro run_plain) (auto simp: plain_def list_all_iff)
  have 3: "run ?r2 ''\"'' = Some ?r3"
    by (simp add: run_defs scan_step_def stateInString_def walk_def)
  have 4: "run ?r3 '':'' = Some (awaiting ms (CHR ''\"'' # name @ ''\"''))"
    by (simp add: awaiting_def run_defs scan_step_def stateEndValue_def isSpace_def walk_def)
  have "run (beforeKey ms st) (''\"'' @ name @ ''\"'' @ '':'')
          = Some (awaiting ms (CHR ''\"'' # name @ ''\"''))"
    by (simp only: run_append [OF 1] run_append [OF 2] run_append [OF 3] 4)
  then show ?thesis by simp
qed

lemma run_brace: "run newReader ''{'' = Some (beforeKey [] StateBeginStringOrEmpty)"
  by (simp add: beforeKey_def newReader_def reset_def run_defs scan_step_def stateBeginValue_def
        pushParseState_def maxNestingDepth_def isSpace_def walk_def)

lemma run_comma:
  assumes "st = StateEndValue \<or> st = State0 \<or> st = State1" and "item \<noteq> []"
  shows "run (holding ms k item st) '','' = Some (beforeKey (ms @ [(k, Literal item)]) StateBeginString)"
  using assms
  by (auto simp: holding_def beforeKey_def run_defs scan_step_def stateEndValue_def state0_def
        state1_def isSpace_def isDigit_def walk_def current_def attach_def)

lemma readValue_close:
  assumes "item \<noteq> []"
  shows "readValue (holding ms k item StateEndValue) ''}'' ns = Inr (Object (ms @ [(k, Literal item)]))"
  using assms
  by (simp add: holding_def scan_step_def stateEndValue_def stateEndTop_def popParseState_def
        isSpace_def walk_def current_def attach_def closed_def)

lemma appendString_nonempty: "appendString t \<noteq> []"
  by (simp add: appendString_def)

lemma FormatInt_nonempty: "FormatInt i \<noteq> []"
  using formatBits_shape [of "nat i"] formatBits_shape [of "nat (- i)"]
  by (auto simp: FormatInt_def)

lemma run_string_value:
  "run (awaiting ms k) (appendString t) = Some (holding ms k (appendString t) StateEndValue)"
  using run_appendString [of "awaiting ms k" t] by (simp add: awaiting_def holding_def)

lemma run_int_value:
  "\<exists>st. (st = State0 \<or> st = State1)
     \<and> run (awaiting ms k) (FormatInt i) = Some (holding ms k (FormatInt i) st)"
  using run_FormatInt [of "awaiting ms k" i] by (simp add: awaiting_def holding_def)

text \<open>A member with a string value and the key of the next member.\<close>

lemma run_member:
  assumes "run (awaiting ms k) v = Some (holding ms k v st)"
    and "st = StateEndValue \<or> st = State0 \<or> st = State1" and "v \<noteq> []"
    and "list_all plain name"
  shows "run (awaiting ms k) (v @ '','' @ (CHR ''\"'' # name @ ''\":''))
           = Some (awaiting (ms @ [(k, Literal v)]) (CHR ''\"'' # name @ ''\"''))"
  by (simp only: run_append [OF assms(1)] run_append [OF run_comma [OF assms(2,3)]]
        run_key [OF disjI1 [OF refl] assms(4)])

lemma plain_names:
  "list_all plain ''title''" "list_all plain ''description''" "list_all plain ''price''"
  "list_all plain ''brand''" "list_all plain ''category''"
  by (simp_all add: plain_def backslash_def)

lemma readValue_marshalled: "readValue newReader (marshalled p) ns = Inr (marshalTree p)"
proof -
  let ?T = "appendString (Title p)" and ?D = "appendString (Description p)"
  let ?N = "FormatInt (sint (Price p))"
  let ?B = "appendString (Brand p)" and ?C = "appendString (Category p)"
  let ?k1 = "CHR ''\"'' # ''title'' @ ''\"''" and ?k2 = "CHR ''\"'' # ''description'' @ ''\"''"
  let ?k3 = "CHR ''\"'' # ''price'' @ ''\"''" and ?k4 = "CHR ''\"'' # ''brand'' @ ''\"''"
  let ?k5 = "CHR ''\"'' # ''category'' @ ''\"''"
  let ?ms1 = "[] @ [(?k1, Literal ?T)]"
  let ?ms2 = "?ms1 @ [(?k2, Literal ?D)]"
  let ?ms3 = "?ms2 @ [(?k3, Literal ?N)]"
  let ?ms4 = "?ms3 @ [(?k4, Literal ?B)]"
  obtain st where st: "st = State0 \<or> st = State1"
    and int: "run (awaiting ?ms2 ?k3) ?N = Some (holding ?ms2 ?k3 ?N st)"
    using run_int_value by blast
  from st have st': "st = StateEndValue \<or> st = State0 \<or> st = State1" by simp
  note 0 = run_brace
  note 1 = run_key [OF disjI2 [OF refl] plain_names(1), of "[]"]
  note 2 = run_member [OF run_string_value disjI1 [OF refl] appendString_nonempty plain_names(2),
             of "[]" ?k1 "Title p"]
  note 3 = run_member [OF run_string_value disjI1 [OF refl] appendString_nonempty plain_names(3),
             of ?ms1 ?k2 "Description p"]
  note 4 = run_member [OF int st' FormatInt_nonempty plain_names(4)]
  note 5 = run_member [OF run_string_value disjI1 [OF refl] appendString_nonempty plain_names(5),
             of ?ms3 ?k4 "Brand p"]
  note 6 = run_string_value [of ?ms4 ?k5 "Category p"]
  have "run newReader
          (''{'' @ (CHR ''\"'' # ''title'' @ ''\":'')
             @ (?T @ '','' @ (CHR ''\"'' # ''description'' @ ''\":''))
             @ (?D @ '','' @ (CHR ''\"'' # ''price'' @ ''\":''))
             @ (?N @ '','' @ (CHR ''\"'' # ''brand'' @ ''\":''))
             @ (?B @ '','' @ (CHR ''\"'' # ''category'' @ ''\":''))
             @ ?C)
          = Some (holding ?ms4 ?k5 ?C StateEndValue)"
    by (simp only: run_append [OF 0] run_append [OF 1] run_append [OF 2] run_append [OF 3]
          run_append [OF 4] run_append [OF 5] 6)
  from readValue_run [OF this, of "''}''" ns]
  show ?thesis
    by (simp add: marshalled_def json_Marshal_def marshalTree_def readValue_close appendString_nonempty
          del: readValue.simps)
qed


section \<open>The paths of AddProduct\<close>

lemma validMethod_POST: "validMethod MethodPost"
  by (simp add: validMethod_def MethodPost_def isTokenRune_def isDigit_def)

lemma http_NewRequest_POST:
  "http_NewRequest g MethodPost url body =
     (case url_Parse g url of
        Inl e \<Rightarrow> Inl e
      | Inr u \<Rightarrow>
          Inr \<lparr>Method = MethodPost, URL = u\<lparr>URL_Host := removeEmptyPort (URL_Host u)\<rparr>,
               Header = [], Body = body, ContentLength = int (length body),
               Host = removeEmptyPort (URL_Host u)\<rparr>)"
  using validMethod_POST unfolding MethodPost_def http_NewRequest_def by (simp add: Let_def)

lemma json_Marshal_marshalled: "json_Marshal p = Inr (marshalled p)"
  by (simp add: marshalled_def json_Marshal_def)

lemma AddProduct_url_error:
  assumes "url_Parse g (apiURL (receiver \<sigma>)) = Inl e"
  shows "AddProduct g p \<sigma>
           = (Return (Product_zero, Some (wrapError ''failed to create request: '' e)), \<sigma>)"
  using assms
  by (simp add: AddProduct_def Let_def json_Marshal_marshalled http_NewRequest_POST)

lemma AddProduct_nil_client:
  assumes "url_Parse g (apiURL (receiver \<sigma>)) = Inr u" "client (receiver \<sigma>) = None"
  shows "AddProduct g p \<sigma> = (Panic, \<sigma>)"
  using assms
  by (simp add: AddProduct_def Let_def json_Marshal_marshalled http_NewRequest_POST)

lemma AddProduct_sent:
  assumes "url_Parse g (apiURL (receiver \<sigma>)) = Inr u" "client (receiver \<sigma>) = Some do"
  shows "AddProduct g p \<sigma> =
    (case do (request_for u p) of
       Inl e \<Rightarrow> Return (Product_zero, Some (wrapError ''failed to send request: '' e))
     | Inr resp \<Rightarrow>
         if StatusCode resp \<noteq> 200 \<and> StatusCode resp \<noteq> 201 then
           Return (Product_zero,
             Some (errorString (''unexpected status code: '' @ FormatInt (sint (StatusCode resp)))))
         else (case Decode (ResponseBody resp) Product_zero of
                 (result, Some e) \<Rightarrow>
                   Return (Product_zero, Some (wrapError ''failed to decode response: '' e))
               | (result, None) \<Rightarrow> Return (result, None)),
     \<sigma>\<lparr>calls := calls \<sigma> @ [request_for u p]\<rparr>)"
  using assms
  by (simp add: AddProduct_def Let_def json_Marshal_marshalled http_NewRequest_POST request_for_def
        Header_Set_def split: sum.splits prod.splits option.splits)

lemma status_message:
  "sublist (FormatInt n) (Error lib (errorString (''unexpected status code: '' @ FormatInt n)))"
proof -
  have "sublist (FormatInt n) (''unexpected status code: '' @ FormatInt n)"
    by (rule sublist_append_leftI)
  then show ?thesis by (simp del: append.simps)
qed

lemma url_Parse_example: "url_Parse hostOnly ''http://example.com'' = Inr exampleURL"
  by (simp add: url_Parse_def stringContainsCTLByte_def hostOnly_def exampleURL_def)

lemma serviceWith_sent:
  "AddProduct hostOnly p (serviceWith c) =
    (case c (request_for exampleURL p) of
       Inl e \<Rightarrow> Return (Product_zero, Some (wrapError ''failed to send request: '' e))
     | Inr resp \<Rightarrow>
         if StatusCode resp \<noteq> 200 \<and> StatusCode resp \<noteq> 201 then
           Return (Product_zero,
             Some (errorString (''unexpected status code: '' @ FormatInt (sint (StatusCode resp)))))
         else (case Decode (ResponseBody resp) Product_zero of
                 (result, Some e) \<Rightarrow>
                   Return (Product_zero, Some (wrapError ''failed to decode response: '' e))
               | (result, None) \<Rightarrow> Return (result, None)),
     (serviceWith c)\<lparr>calls := [request_for exampleURL p]\<rparr>)"
  using AddProduct_sent [of hostOnly "serviceWith c" exampleURL c p] url_Parse_example
  by (simp add: serviceWith_def NewProductService_def)

lemma FormatInt_400: "FormatInt 400 = ''400''"
  by (simp add: FormatInt_def formatBits.simps digit_def)

section \<open>The status check\<close>

text \<open>
  C1. Whenever the client of the service answered the request of the call with a response,
  the call succeeds only if the status code of the response is 200 or 201; for any other
  status code it returns an error, with the zero Product, and the message of the error
  contains the decimal text of the status code. The body of the response is arbitrary.
\<close>

theorem AddProduct_status_code:
  assumes "client (receiver \<sigma>) = Some do"
    and "calls (snd (AddProduct g p \<sigma>)) = calls \<sigma> @ [req]"
    and "do req = Inr resp"
  shows "((\<exists>q. fst (AddProduct g p \<sigma>) = Return (q, None))
            \<longrightarrow> StatusCode resp = 200 \<or> StatusCode resp = 201)
       \<and> (StatusCode resp \<noteq> 200 \<and> StatusCode resp \<noteq> 201 \<longrightarrow>
            (\<exists>e. fst (AddProduct g p \<sigma>) = Return (Product_zero, Some e)
               \<and> (\<forall>lib. sublist (FormatInt (sint (StatusCode resp))) (Error lib e))))"
proof (cases "url_Parse g (apiURL (receiver \<sigma>))")
  case (Inl e)
  with assms(2) show ?thesis by (simp add: AddProduct_url_error)
next
  case (Inr u)
  note sent = AddProduct_sent [OF Inr assms(1), of p]
  from assms(2) have "req = request_for u p" by (simp add: sent)
  with assms(3) show ?thesis
    using status_message [of "sint (StatusCode resp)"]
    by (auto simp: sent simp del: append.simps split: prod.splits option.splits)
qed

theorem AddProduct_status_code_witness:
  "\<exists>e. fst (AddProduct hostOnly Product_zero (serviceWith (answering 400 ''{}'')))
          = Return (Product_zero, Some e)
      \<and> (\<forall>lib. sublist ''400'' (Error lib e))"
proof -
  let ?\<sigma> = "serviceWith (answering 400 ''{}'')"
  let ?req = "request_for exampleURL Product_zero"
  have 1: "client (receiver ?\<sigma>) = Some (answering 400 ''{}'')"
    by (simp add: serviceWith_def NewProductService_def)
  have 2: "calls (snd (AddProduct hostOnly Product_zero ?\<sigma>)) = calls ?\<sigma> @ [?req]"
    by (simp add: serviceWith_sent) (simp add: serviceWith_def)
  have 3: "answering 400 ''{}'' ?req = Inr \<lparr>StatusCode = 400, ResponseBody = ''{}''\<rparr>"
    by (simp add: answering_def)
  from AddProduct_status_code [OF 1 2 3] show ?thesis
    by (simp add: FormatInt_400)
qed

section \<open>Errors come with the zero Product\<close>

text \<open>
  C4. Whenever a call returns an error that is not nil, whichever step it comes from, the
  Product it returns with it is the zero Product.
\<close>

theorem AddProduct_error_zero:
  assumes "fst (AddProduct g p \<sigma>) = Return (q, Some e)"
  shows "q = Product_zero"
proof (cases "url_Parse g (apiURL (receiver \<sigma>))")
  case (Inl e)
  with assms show ?thesis by (simp add: AddProduct_url_error)
next
  case (Inr u)
  show ?thesis
  proof (cases "client (receiver \<sigma>)")
    case None
    with Inr assms show ?thesis by (simp add: AddProduct_nil_client)
  next
    case (Some do)
    with Inr assms show ?thesis
      by (auto simp: AddProduct_sent split: sum.splits prod.splits option.splits if_splits)
  qed
qed

theorem AddProduct_error_zero_witness:
  "fst (AddProduct hostOnly (Product_zero\<lparr>Price := 7\<rparr>) (serviceWith (answering 500 [])))
     = Return (Product_zero, Some (errorString ''unexpected status code: 500''))"
proof -
  let ?call = "AddProduct hostOnly (Product_zero\<lparr>Price := 7\<rparr>) (serviceWith (answering 500 []))"
  have "FormatInt (sint (500 :: 64 word)) = ''500''"
    by (simp add: FormatInt_def formatBits.simps digit_def)
  then obtain q where q: "fst ?call = Return (q, Some (errorString ''unexpected status code: 500''))"
    by (simp add: serviceWith_sent answering_def)
  from AddProduct_error_zero [OF q] q show ?thesis by simp
qed

section \<open>An invalid URL stops the call before the network\<close>

text \<open>
  C5. If the URL of the service does not parse, the call fails with the error of the
  request construction step, wrapping the error of the parser, and hands no request to
  the client: the requests sent are those sent before the call.
\<close>

theorem AddProduct_invalid_url:
  assumes "url_Parse g (apiURL (receiver \<sigma>)) = Inl e"
  shows "fst (AddProduct g p \<sigma>)
           = Return (Product_zero, Some (wrapError ''failed to create request: '' e))
       \<and> calls (snd (AddProduct g p \<sigma>)) = calls \<sigma>"
  using assms by (simp add: AddProduct_url_error)

text \<open>The URL of the test \<^verbatim>\<open>new request error\<close>, which ends in a raw newline.\<close>

theorem AddProduct_invalid_url_witness:
  "fst (AddProduct hostOnly Product_zero
          \<lparr>receiver = NewProductService (''http://'' @ [CHR 0x0A]) (Some echo), calls = []\<rparr>)
     = Return (Product_zero, Some (wrapError ''failed to create request: ''
         (url_Error ''parse'' (''http://'' @ [CHR 0x0A])
            (errorString ''net/url: invalid control character in URL''))))
   \<and> calls (snd (AddProduct hostOnly Product_zero
          \<lparr>receiver = NewProductService (''http://'' @ [CHR 0x0A]) (Some echo), calls = []\<rparr>)) = []"
proof -
  let ?\<sigma> = "\<lparr>receiver = NewProductService (''http://'' @ [CHR 0x0A]) (Some echo), calls = []\<rparr>"
  have "url_Parse hostOnly (apiURL (receiver ?\<sigma>))
          = Inl (url_Error ''parse'' (''http://'' @ [CHR 0x0A])
                   (errorString ''net/url: invalid control character in URL''))"
    by (simp add: url_Parse_def stringContainsCTLByte_def NewProductService_def)
  from AddProduct_invalid_url [OF this, of Product_zero] show ?thesis by simp
qed

section \<open>A body that does not decode\<close>

text \<open>
  C7. If the response has status 200 or 201 and decoding its body reports an error, as it
  does for a body that is not well-formed JSON, the call returns the zero Product and an
  error that names the decode step and wraps the error of the decoder.
\<close>

theorem AddProduct_decode_error:
  assumes "url_Parse g (apiURL (receiver \<sigma>)) = Inr u"
    and "client (receiver \<sigma>) = Some do"
    and "do (request_for u p) = Inr resp"
    and "StatusCode resp = 200 \<or> StatusCode resp = 201"
    and "snd (Decode (ResponseBody resp) Product_zero) = Some e"
  shows "fst (AddProduct g p \<sigma>)
           = Return (Product_zero, Some (wrapError ''failed to decode response: '' e))"
  using assms(3-5) by (auto simp: AddProduct_sent [OF assms(1,2)] split: prod.splits)

text \<open>The body of the test \<^verbatim>\<open>decode response error\<close>.\<close>

theorem AddProduct_decode_error_witness:
  "fst (AddProduct hostOnly Product_zero (serviceWith (answering 200 ''{\"invalid json'')))
     = Return (Product_zero, Some (wrapError ''failed to decode response: '' ErrUnexpectedEOF))"
proof -
  let ?\<sigma> = "serviceWith (answering 200 ''{\"invalid json'')"
  let ?resp = "\<lparr>StatusCode = 200, ResponseBody = ''{\"invalid json''\<rparr>"
  have 1: "url_Parse hostOnly (apiURL (receiver ?\<sigma>)) = Inr exampleURL"
    using url_Parse_example by (simp add: serviceWith_def NewProductService_def)
  have 2: "client (receiver ?\<sigma>) = Some (answering 200 ''{\"invalid json'')"
    by (simp add: serviceWith_def NewProductService_def)
  have 3: "answering 200 ''{\"invalid json'' (request_for exampleURL Product_zero) = Inr ?resp"
    by (simp add: answering_def)
  have 4: "StatusCode ?resp = 200 \<or> StatusCode ?resp = 201"
    by simp
  have 5: "snd (Decode (ResponseBody ?resp) Product_zero) = Some ErrUnexpectedEOF"
    by (simp add: Decode_def scanner_defs reader_defs)
  from AddProduct_decode_error [OF 1 2 3 4 5] show ?thesis .
qed

section \<open>The call changes nothing of the service\<close>

text \<open>
  C9. After every call, whatever its outcome, the service the receiver points to is the
  service it was before: \<open>apiURL\<close>, \<open>client\<close> and \<open>marshal\<close> are as they were. The Product
  is passed by value, so the caller's Product cannot change either.
\<close>

theorem AddProduct_frame:
  "receiver (snd (AddProduct g p \<sigma>)) = receiver \<sigma>"
proof (cases "url_Parse g (apiURL (receiver \<sigma>))")
  case (Inl e)
  then show ?thesis by (simp add: AddProduct_url_error)
next
  case (Inr u)
  then show ?thesis
    by (cases "client (receiver \<sigma>)") (simp_all add: AddProduct_nil_client AddProduct_sent)
qed

section \<open>The marshal field\<close>

lemma AddProduct_marshal_unused:
  "fst (AddProduct g p (\<sigma>\<lparr>receiver := (receiver \<sigma>)\<lparr>marshal := m\<rparr>\<rparr>)) = fst (AddProduct g p \<sigma>)"
proof -
  let ?\<tau> = "\<sigma>\<lparr>receiver := (receiver \<sigma>)\<lparr>marshal := m\<rparr>\<rparr>"
  have same: "apiURL (receiver ?\<tau>) = apiURL (receiver \<sigma>)"
    "client (receiver ?\<tau>) = client (receiver \<sigma>)"
    by simp_all
  show ?thesis
  proof (cases "url_Parse g (apiURL (receiver \<sigma>))")
    case (Inl e)
    then show ?thesis
      using AddProduct_url_error [of g \<sigma> e p] AddProduct_url_error [of g ?\<tau> e p] same by simp
  next
    case (Inr u)
    show ?thesis
    proof (cases "client (receiver \<sigma>)")
      case None
      then show ?thesis
        using AddProduct_nil_client [of g \<sigma> u p] AddProduct_nil_client [of g ?\<tau> u p] Inr same
        by simp
    next
      case (Some do)
      then show ?thesis
        using AddProduct_sent [of g \<sigma> u do p] AddProduct_sent [of g ?\<tau> u do p] Inr same
        by simp
    qed
  qed
qed

text \<open>
  C3. The service of the test \<^verbatim>\<open>json marshal error\<close>, whose \<open>marshal\<close> field always fails,
  with a client that answers 201 and an empty object: the serialization function of the
  field fails on the Product, and yet the call succeeds. \<^verbatim>\<open>AddProduct\<close> calls
  \<^verbatim>\<open>json.Marshal\<close> and never reads the field.
\<close>

theorem AddProduct_ignores_marshal_field:
  "marshal (receiver ((serviceWith (answering 201 ''{}''))
       \<lparr>receiver := (receiver (serviceWith (answering 201 ''{}'')))\<lparr>marshal := failingMarshal\<rparr>\<rparr>))
     Product_zero = Inl (errorString ''marshal error'')
   \<and> fst (AddProduct hostOnly Product_zero ((serviceWith (answering 201 ''{}''))
       \<lparr>receiver := (receiver (serviceWith (answering 201 ''{}'')))\<lparr>marshal := failingMarshal\<rparr>\<rparr>))
     = Return (Product_zero, None)"
proof -
  have "Decode ''{}'' Product_zero = (Product_zero, None)"
    by (simp add: Decode_def scanner_defs reader_defs store_defs)
  then have "fst (AddProduct hostOnly Product_zero (serviceWith (answering 201 ''{}'')))
               = Return (Product_zero, None)"
    by (simp add: serviceWith_sent answering_def)
  then show ?thesis
    by (simp add: AddProduct_marshal_unused failingMarshal_def)
qed

section \<open>Bytes after the first value\<close>

lemma readValue_append:
  "readValue r xs ns = Inr (Object ms) \<Longrightarrow> readValue r (xs @ t) ns' = Inr (Object ms)"
proof (induction xs arbitrary: r)
  case Nil
  then show ?case by (simp split: if_splits)
next
  case (Cons c cs)
  obtain op s' where st: "scan_step (scan r) c = (op, s')" by (cases "scan_step (scan r) c")
  obtain op2 s'' where en: "stateEndValue s' CHR '' '' = (op2, s'')"
    by (cases "stateEndValue s' CHR '' ''")
  show ?case
  proof (cases "op = scanEnd \<or> op = scanError")
    case True
    with Cons.prems st show ?thesis by auto
  next
    case False
    note ordinary = this
    show ?thesis
    proof (cases "op = scanEndObject \<or> op = scanEndArray")
      case True
      show ?thesis
      proof (cases "op2 = scanEnd")
        case e: True
        with Cons.prems st en True ordinary show ?thesis by (simp add: Let_def)
      next
        case e: False
        with Cons.prems st en True ordinary
        have "readValue ((walk op c (r\<lparr>scan := s'\<rparr>))\<lparr>scan := s''\<rparr>) cs ns = Inr (Object ms)"
          by (simp add: Let_def)
        from Cons.IH [OF this] st en True ordinary e show ?thesis by (simp add: Let_def)
      qed
    next
      case False
      with Cons.prems st ordinary
      have "readValue (walk op c (r\<lparr>scan := s'\<rparr>)) cs ns = Inr (Object ms)"
        by simp
      from Cons.IH [OF this] st False ordinary show ?thesis by simp
    qed
  qed
qed

lemma Decode_append:
  assumes "readValue newReader obj (nonSpace obj) = Inr (Object ms)"
  shows "Decode (obj @ t) v = Decode obj v"
  using assms readValue_append [OF assms, of t "nonSpace (obj @ t)"] by (simp add: Decode_def)

text \<open>
  C10. If the response has status 200 or 201 and its body begins with a well-formed JSON
  object \<open>obj\<close>, whatever bytes \<open>trailing\<close> follow it, the call returns the Product that
  decoding \<open>obj\<close> alone gives, with a nil error: the bytes after the object are not read.
\<close>

theorem AddProduct_trailing_bytes:
  assumes "url_Parse g (apiURL (receiver \<sigma>)) = Inr u"
    and "client (receiver \<sigma>) = Some do"
    and "do (request_for u p) = Inr resp"
    and "StatusCode resp = 200 \<or> StatusCode resp = 201"
    and "ResponseBody resp = obj @ trailing"
    and "readValue newReader obj (nonSpace obj) = Inr (Object ms)"
    and "Decode obj Product_zero = (q, None)"
  shows "fst (AddProduct g p \<sigma>) = Return (q, None)"
  using assms(3,4,5,7) Decode_append [OF assms(6), of trailing Product_zero]
  by (auto simp: AddProduct_sent [OF assms(1,2)])

lemma serviceWith_parts:
  "url_Parse hostOnly (apiURL (receiver (serviceWith c))) = Inr exampleURL"
  "client (receiver (serviceWith c)) = Some c"
  "calls (serviceWith c) = []"
  using url_Parse_example by (simp_all add: serviceWith_def NewProductService_def)

theorem AddProduct_trailing_bytes_witness:
  "fst (AddProduct hostOnly Product_zero (serviceWith (answering 200 (''{\"title\":\"a\"}'' @ ''}garbage''))))
     = Return (Product_zero\<lparr>Title := ''a''\<rparr>, None)"
proof -
  let ?obj = "''{\"title\":\"a\"}''"
  let ?resp = "\<lparr>StatusCode = 200, ResponseBody = ?obj @ ''}garbage''\<rparr>"
  have 3: "answering 200 (?obj @ ''}garbage'') (request_for exampleURL Product_zero) = Inr ?resp"
    by (simp add: answering_def)
  have 4: "StatusCode ?resp = 200 \<or> StatusCode ?resp = 201" by simp
  have 5: "ResponseBody ?resp = ?obj @ ''}garbage''" by simp
  have 6: "readValue newReader ?obj (nonSpace ?obj)
             = Inr (Object [(''\"title\"'', Literal ''\"a\"'')])"
    by (simp add: scanner_defs reader_defs)
  have "value_top (Object [(''\"title\"'', Literal ''\"a\"'')]) (Product_zero, None)
          = (Product_zero\<lparr>Title := ''a''\<rparr>, None)"
    by (simp add: store_defs)
  then have 7: "Decode ?obj Product_zero = (Product_zero\<lparr>Title := ''a''\<rparr>, None)"
    unfolding Decode_def 6 by simp
  from AddProduct_trailing_bytes
         [where do = "answering 200 (?obj @ ''}garbage'')" and \<sigma> = "serviceWith (answering 200 (?obj @ ''}garbage''))",
          OF serviceWith_parts(1,2) 3 4 5 6 7]
  show ?thesis .
qed

section \<open>The request\<close>

text \<open>
  C8. The request a call hands to the client has the method POST, the URL the parser made of
  the URL of the service, the one header \<^verbatim>\<open>Content-Type: application/json\<close>, and as body the
  bytes \<^verbatim>\<open>json.Marshal\<close> returns for the Product, which read as one JSON object with the five
  keys in the order of the struct: \<open>title\<close>, \<open>description\<close>, \<open>brand\<close> and \<open>category\<close> with the
  string literal of the field, \<open>price\<close> with the decimal number of the field.
\<close>

theorem AddProduct_request:
  assumes "url_Parse g (apiURL (receiver \<sigma>)) = Inr u"
    and "client (receiver \<sigma>) = Some do"
  shows "\<exists>req. calls (snd (AddProduct g p \<sigma>)) = calls \<sigma> @ [req]
      \<and> Method req = ''POST''
      \<and> URL req = u\<lparr>URL_Host := removeEmptyPort (URL_Host u)\<rparr>
      \<and> Header req = [(''Content-Type'', [''application/json''])]
      \<and> json_Marshal p = Inr (Body req)
      \<and> readValue newReader (Body req) (nonSpace (Body req))
          = Inr (Object [(''\"title\"'', Literal (appendString (Title p))),
                         (''\"description\"'', Literal (appendString (Description p))),
                         (''\"price\"'', Literal (FormatInt (sint (Price p)))),
                         (''\"brand\"'', Literal (appendString (Brand p))),
                         (''\"category\"'', Literal (appendString (Category p)))])"
proof -
  have "calls (snd (AddProduct g p \<sigma>)) = calls \<sigma> @ [request_for u p]"
    by (simp add: AddProduct_sent [OF assms])
  moreover have "Method (request_for u p) = ''POST''"
    "URL (request_for u p) = u\<lparr>URL_Host := removeEmptyPort (URL_Host u)\<rparr>"
    "Header (request_for u p) = [(''Content-Type'', [''application/json''])]"
    "json_Marshal p = Inr (Body (request_for u p))"
    by (simp_all add: request_for_def MethodPost_def json_Marshal_marshalled)
  moreover have "readValue newReader (Body (request_for u p)) (nonSpace (Body (request_for u p)))
      = Inr (marshalTree p)"
    by (simp add: request_for_def readValue_marshalled del: readValue.simps)
  ultimately show ?thesis
    unfolding marshalTree_def by blast
qed

theorem AddProduct_request_witness:
  "\<exists>req. calls (snd (AddProduct hostOnly Product_zero (serviceWith echo))) = [req]
      \<and> Method req = ''POST''
      \<and> URL req = exampleURL
      \<and> Header req = [(''Content-Type'', [''application/json''])]
      \<and> Body req = ''{\"title\":\"\",\"description\":\"\",\"price\":0,\"brand\":\"\",\"category\":\"\"}''"
proof -
  have m: "json_Marshal Product_zero
             = Inr ''{\"title\":\"\",\"description\":\"\",\"price\":0,\"brand\":\"\",\"category\":\"\"}''"
    by (simp add: json_Marshal_def Product_zero_def appendString_def appendString_loop_Nil
          FormatInt_def formatBits.simps digit_def)
  have u: "exampleURL\<lparr>URL_Host := removeEmptyPort (URL_Host exampleURL)\<rparr> = exampleURL"
    by (simp add: exampleURL_def removeEmptyPort_def hasPort_def)
  from AddProduct_request [where \<sigma> = "serviceWith echo" and do = echo, OF serviceWith_parts(1,2), of Product_zero]
  show ?thesis
    by (auto simp: m u serviceWith_parts(3))
qed

section \<open>The result is decoded from the response\<close>

lemma member_fieldOfKey:
  "member st kv = (case fieldOfKey (fst kv) of None \<Rightarrow> st | Some f \<Rightarrow> value_field (snd kv) f st)"
  by (simp add: member_def fieldOfKey_def split: option.splits)

lemma object_Cons: "object (kv # ms) st = object ms (member st kv)"
  by (simp add: object_def)

lemma object_filter:
  "object (filter (\<lambda>kv. fieldOfKey (fst kv) \<noteq> None) ms) st = object ms st"
proof (induction ms arbitrary: st)
  case Nil
  show ?case by simp
next
  case (Cons kv ms)
  show ?case
  proof (cases "fieldOfKey (fst kv)")
    case None
    then have "member st kv = st" by (simp add: member_fieldOfKey)
    with None Cons show ?thesis by (simp add: object_Cons)
  next
    case (Some f)
    with Cons show ?thesis by (simp add: object_Cons)
  qed
qed

lemma SetString_other: "f \<noteq> f' \<Longrightarrow> fieldValue f (SetString f' x v) = fieldValue f v"
  by (cases f; cases f') simp_all

lemma SetInt_other: "f \<noteq> f' \<Longrightarrow> fieldValue f (SetInt f' n v) = fieldValue f v"
  by (cases f; cases f') simp_all

lemma saveError_fst: "fst (saveError e st) = fst st"
  by (simp add: saveError_def split: option.splits)

lemma value_field_other:
  assumes "f \<noteq> f'"
  shows "fieldValue f (fst (value_field v f' st)) = fieldValue f (fst st)"
  using assms
  by (auto simp: value_field_def literalStore_def saveError_fst SetString_other SetInt_other
        split: json.splits list.splits option.splits kind.splits)

lemma object_untouched:
  assumes "\<forall>kv \<in> set ms. fieldOfKey (fst kv) \<noteq> Some f"
  shows "fieldValue f (fst (object ms st)) = fieldValue f (fst st)"
  using assms
proof (induction ms arbitrary: st)
  case Nil
  show ?case by (simp add: object_def)
next
  case (Cons kv ms)
  have "fieldValue f (fst (member st kv)) = fieldValue f (fst st)"
  proof (cases "fieldOfKey (fst kv)")
    case None
    then show ?thesis by (simp add: member_fieldOfKey)
  next
    case (Some f')
    with Cons.prems have "f \<noteq> f'" by auto
    with Some show ?thesis by (simp add: member_fieldOfKey value_field_other)
  qed
  with Cons show ?case by (simp add: object_Cons)
qed

lemma AddProduct_success:
  assumes "fst (AddProduct g p \<sigma>) = Return (q, None)"
  shows "\<exists>u do resp. url_Parse g (apiURL (receiver \<sigma>)) = Inr u \<and> client (receiver \<sigma>) = Some do
           \<and> do (request_for u p) = Inr resp
           \<and> Decode (ResponseBody resp) Product_zero = (q, None)"
proof (cases "url_Parse g (apiURL (receiver \<sigma>))")
  case (Inl e)
  with assms show ?thesis by (simp add: AddProduct_url_error)
next
  case (Inr u)
  show ?thesis
  proof (cases "client (receiver \<sigma>)")
    case None
    with Inr assms show ?thesis by (simp add: AddProduct_nil_client)
  next
    case (Some do)
    with Inr assms show ?thesis
      by (auto simp: AddProduct_sent split: sum.splits prod.splits option.splits if_splits)
  qed
qed

text \<open>
  C6, as the code has it. A call that succeeds returns the Product the decoder makes of the
  body of the response, starting from the zero Product: the Product passed in has no part
  in it. When the body is an object, the members whose key stands for no field, neither by
  its exact name nor by the name with the case folded, make no difference, and a field for
  which no key of the object stands keeps its zero value.
\<close>

theorem AddProduct_decoded_from_response:
  assumes "fst (AddProduct g p \<sigma>) = Return (q, None)"
  shows "\<exists>u do resp. url_Parse g (apiURL (receiver \<sigma>)) = Inr u \<and> client (receiver \<sigma>) = Some do
           \<and> do (request_for u p) = Inr resp
           \<and> Decode (ResponseBody resp) Product_zero = (q, None)
           \<and> (\<forall>ms. readValue newReader (ResponseBody resp) (nonSpace (ResponseBody resp))
                       = Inr (Object ms) \<longrightarrow>
                  q = fst (object (filter (\<lambda>kv. fieldOfKey (fst kv) \<noteq> None) ms) (Product_zero, None))
                \<and> (\<forall>f. (\<forall>kv \<in> set ms. fieldOfKey (fst kv) \<noteq> Some f)
                        \<longrightarrow> fieldValue f q = fieldValue f Product_zero))"
proof -
  from AddProduct_success [OF assms] obtain u do resp
    where sent: "url_Parse g (apiURL (receiver \<sigma>)) = Inr u" "client (receiver \<sigma>) = Some do"
      "do (request_for u p) = Inr resp"
      and dec: "Decode (ResponseBody resp) Product_zero = (q, None)"
    by blast
  have "q = fst (object (filter (\<lambda>kv. fieldOfKey (fst kv) \<noteq> None) ms) (Product_zero, None))
      \<and> (\<forall>f. (\<forall>kv \<in> set ms. fieldOfKey (fst kv) \<noteq> Some f)
              \<longrightarrow> fieldValue f q = fieldValue f Product_zero)"
    if tree: "readValue newReader (ResponseBody resp) (nonSpace (ResponseBody resp)) = Inr (Object ms)"
    for ms
  proof -
    from dec tree have q: "q = fst (object ms (Product_zero, None))"
      by (simp add: Decode_def value_top_def)
    then show ?thesis
      using object_untouched [of ms _ "(Product_zero, None)"]
        object_filter [of ms "(Product_zero, None)"]
      by simp
  qed
  with sent dec show ?thesis by blast
qed

theorem AddProduct_decoded_from_response_witness:
  "\<exists>u do resp. url_Parse hostOnly (apiURL (receiver (serviceWith
                     (answering 201 ''{\"title\":\"a\",\"id\":[1],\"Price\":5}'')))) = Inr u
      \<and> client (receiver (serviceWith (answering 201 ''{\"title\":\"a\",\"id\":[1],\"Price\":5}''))) = Some do
      \<and> do (request_for u (Product_zero\<lparr>Brand := ''b''\<rparr>)) = Inr resp
      \<and> Decode (ResponseBody resp) Product_zero = (Product_zero\<lparr>Title := ''a'', Price := 5\<rparr>, None)
      \<and> (\<forall>ms. readValue newReader (ResponseBody resp) (nonSpace (ResponseBody resp))
                  = Inr (Object ms) \<longrightarrow>
             Product_zero\<lparr>Title := ''a'', Price := 5\<rparr>
               = fst (object (filter (\<lambda>kv. fieldOfKey (fst kv) \<noteq> None) ms) (Product_zero, None))
           \<and> (\<forall>f. (\<forall>kv \<in> set ms. fieldOfKey (fst kv) \<noteq> Some f)
                   \<longrightarrow> fieldValue f (Product_zero\<lparr>Title := ''a'', Price := 5\<rparr>)
                         = fieldValue f Product_zero))"
proof -
  let ?body = "''{\"title\":\"a\",\"id\":[1],\"Price\":5}''"
  have "Decode ?body Product_zero = (Product_zero\<lparr>Title := ''a'', Price := 5\<rparr>, None)"
    by (simp add: Decode_def scanner_defs reader_defs store_defs)
  then have "fst (AddProduct hostOnly (Product_zero\<lparr>Brand := ''b''\<rparr>) (serviceWith (answering 201 ?body)))
               = Return (Product_zero\<lparr>Title := ''a'', Price := 5\<rparr>, None)"
    by (simp add: serviceWith_sent answering_def)
  from AddProduct_decoded_from_response [OF this] show ?thesis .
qed

text \<open>
  C6, as it is stated, fails: \<open>TITLE\<close> is none of the five keys of a Product, and a response
  that holds only this key gives the title of the result, where ignoring the key would give
  the zero Product, as the empty object does.
\<close>

theorem unknown_key_counterexample:
  "''TITLE'' \<notin> set (map field_name typeFields)
   \<and> fst (AddProduct hostOnly Product_zero (serviceWith (answering 201 ''{\"TITLE\":\"x\"}'')))
       = Return (Product_zero\<lparr>Title := ''x''\<rparr>, None)
   \<and> fst (AddProduct hostOnly Product_zero (serviceWith (answering 201 ''{}'')))
       = Return (Product_zero, None)"
proof -
  have "Decode ''{\"TITLE\":\"x\"}'' Product_zero = (Product_zero\<lparr>Title := ''x''\<rparr>, None)"
    by (simp add: Decode_def scanner_defs reader_defs store_defs)
  moreover have "Decode ''{}'' Product_zero = (Product_zero, None)"
    by (simp add: Decode_def scanner_defs reader_defs store_defs)
  ultimately show ?thesis
    by (simp add: serviceWith_sent answering_def typeFields_def)
qed

section \<open>Unquoting what Marshal quoted\<close>

lemma Valid_Nil: "Valid []"
  by (simp add: Valid.simps)

lemma Valid_ascii: "byte b < 0x80 \<Longrightarrow> Valid (b # rest) = Valid rest"
  by (subst Valid.simps) (simp add: DecodeRune_def RuneError_def)

lemma Valid_rune:
  "Valid (b # rest) =
     (DecodeRune (b # rest) \<noteq> (RuneError, 1) \<and> Valid (drop (snd (DecodeRune (b # rest))) (b # rest)))"
  by (subst Valid.simps) simp

lemma hexValue_hex: "n < 16 \<Longrightarrow> hexValue (hex ! n) = Some n"
  by (rule all_below [where k = 16]) (simp_all add: upt_rec hex_def hexValue_def isDigit_def)

lemma getu4_escape:
  assumes "hexValue h1 = Some d1" "hexValue h2 = Some d2" "hexValue h3 = Some d3" "hexValue h4 = Some d4"
  shows "getu4 (backslash # CHR ''u'' # h1 # h2 # h3 # h4 # zs) = Some (((d1 * 16 + d2) * 16 + d3) * 16 + d4)"
  using assms by (simp add: getu4_def)

lemma unquote_u:
  assumes "hexValue h1 = Some d1" "hexValue h2 = Some d2" "hexValue h3 = Some d3" "hexValue h4 = Some d4"
    and "\<not> IsSurrogate (((d1 * 16 + d2) * 16 + d3) * 16 + d4)"
  shows "unquote_loop (backslash # CHR ''u'' # h1 # h2 # h3 # h4 # zs)
           = map_option ((@) (EncodeRune (((d1 * 16 + d2) * 16 + d3) * 16 + d4))) (unquote_loop zs)"
proof -
  have "CHR ''u'' \<noteq> backslash" by (simp add: backslash_def)
  then show ?thesis
    using assms(5) getu4_escape [OF assms(1-4), of zs]
    by (subst unquote_loop_Cons) simp
qed

lemma unquote_short:
  assumes "e = CHR ''\"'' \<or> e = backslash"
  shows "unquote_loop (backslash # e # zs) = map_option ((#) e) (unquote_loop zs)"
  using assms by (subst unquote_loop_Cons) auto

lemma unquote_letter:
  "unquote_loop (backslash # CHR ''b'' # zs) = map_option ((#) (CHR 0x08)) (unquote_loop zs)"
  "unquote_loop (backslash # CHR ''f'' # zs) = map_option ((#) (CHR 0x0C)) (unquote_loop zs)"
  "unquote_loop (backslash # CHR ''n'' # zs) = map_option ((#) (CHR 0x0A)) (unquote_loop zs)"
  "unquote_loop (backslash # CHR ''r'' # zs) = map_option ((#) (CHR 0x0D)) (unquote_loop zs)"
  "unquote_loop (backslash # CHR ''t'' # zs) = map_option ((#) (CHR 0x09)) (unquote_loop zs)"
  by (subst unquote_loop_Cons, simp add: backslash_def)+

lemma append_single: "(@) [x] = (#) x"
  by (rule ext) simp

lemma hexValue_digits: "hexValue CHR ''0'' = Some 0" "hexValue CHR ''2'' = Some 2"
  "hexValue CHR ''8'' = Some 8" "hexValue CHR ''9'' = Some 9"
  by (simp_all add: hexValue_def isDigit_def)

lemma unquote_escapeByte:
  assumes "byte b < 0x80" and "\<not> htmlSafeSet b"
  shows "unquote_loop (escapeByte b @ zs) = map_option ((#) b) (unquote_loop zs)"
proof -
  have parts: "byte b div 16 < 16" "byte b mod 16 < 16"
    using assms(1) by simp_all
  have whole: "((0 * 16 + 0) * 16 + byte b div 16) * 16 + byte b mod 16 = byte b"
    by simp
  have enc: "EncodeRune (byte b) = [b]"
    using assms(1) by (simp add: EncodeRune_def)
  have "\<not> IsSurrogate (((0 * 16 + 0) * 16 + byte b div 16) * 16 + byte b mod 16)"
    unfolding whole using assms(1) by (simp add: IsSurrogate_def)
  from unquote_u [OF hexValue_digits(1) hexValue_digits(1) hexValue_hex [OF parts(1)]
         hexValue_hex [OF parts(2)] this, of zs]
  have u: "unquote_loop (backslash # CHR ''u'' # CHR ''0'' # CHR ''0'' # hex ! (byte b div 16)
              # hex ! (byte b mod 16) # zs) = map_option ((#) b) (unquote_loop zs)"
    unfolding whole enc by (simp add: append_single)
  show ?thesis
    unfolding escapeByte_def
    using u unquote_short [of b zs] unquote_letter [of zs]
    by (auto simp del: of_char_eq_iff)
qed


end
